theory Spec2Isabelle
  imports Complex_Main
begin

section \<open>The colour-mix variant of preset-uno (variants/mix.ts)\<close>

subsection \<open>Values of the host language\<close>

text \<open>
  The values that reach this module: a style value is \<open>string | number | undefined\<close>, a
  colour component is \<open>string | number\<close>. Numbers are modelled as integers, which covers
  the numbers whose text is their plain decimal notation (integers of magnitude below
  \<open>2^53\<close>); a fractional value travels through this module in its text form. Strings
  are lists of 8-bit characters.
\<close>

datatype jsval = Undefined | Bool bool | Str string | Num int

text \<open>The result of \<open>Number.parseFloat\<close>: not-a-number, or a number.\<close>

datatype jsnum = NaN | Fin int

datatype error = TypeError | PatternOutsideModel

definition digit_chars :: string where
  "digit_chars = ''0123456789''"

definition is_digit :: "char \<Rightarrow> bool" where
  "is_digit c = (c \<in> set digit_chars)"

text \<open>The value of a digit: its position among the digit characters.\<close>

definition digit_val :: "char \<Rightarrow> nat" where
  "digit_val c = length (takeWhile (\<lambda>d. d \<noteq> c) digit_chars)"

text \<open>Decimal notation of a natural number, most significant digit first.\<close>

function digits_of :: "nat \<Rightarrow> string" where
  "digits_of n =
     (if n < 10 then [digit_chars ! n] else digits_of (n div 10) @ [digit_chars ! (n mod 10)])"
  by pat_completeness auto
termination
  by (relation "measure (\<lambda>n. n)") auto

declare digits_of.simps [simp del]

text \<open>\<open>String(n)\<close> for an integer number; minus zero prints as \<open>0\<close>, as in the host.\<close>

definition numToString :: "int \<Rightarrow> string" where
  "numToString n = (if n < 0 then CHR ''-'' # digits_of (nat (- n)) else digits_of (nat n))"

text \<open>The text a template literal \<open>`${v}`\<close> interpolates for a value.\<close>

fun toStr :: "jsval \<Rightarrow> string" where
  "toStr Undefined = ''undefined''"
| "toStr (Bool b) = (if b then ''true'' else ''false'')"
| "toStr (Str s) = s"
| "toStr (Num n) = numToString n"

text \<open>Truthiness, as tested by \<open>if (v[1])\<close>.\<close>

fun truthy :: "jsval \<Rightarrow> bool" where
  "truthy Undefined = False"
| "truthy (Bool b) = b"
| "truthy (Str s) = (s \<noteq> [])"
| "truthy (Num n) = (n \<noteq> 0)"

text \<open>Reading an array element: out of range the host yields \<open>undefined\<close>.\<close>

definition js_nth :: "jsval list \<Rightarrow> nat \<Rightarrow> jsval" where
  "js_nth xs i = (if i < length xs then xs ! i else Undefined)"

text \<open>The nullish default \<open>a ?? d\<close>.\<close>

definition nullish :: "jsval \<Rightarrow> jsval \<Rightarrow> jsval" where
  "nullish a d = (case a of Undefined \<Rightarrow> d | _ \<Rightarrow> a)"

subsection \<open>Number.parseFloat on integer texts\<close>

text \<open>
  \<open>Number.parseFloat\<close> skips leading white space, reads an optional sign and the longest
  decimal literal that follows, and yields NaN when there is none. The model reads the
  digit run; \<open>integer_text\<close> marks the texts on which that is the built-in's value: the
  digit run has at most 15 digits and is not continued by a fraction or an exponent,
  and a text without a digit run does not go on with a dot or with \<open>Infinity\<close>.
\<close>

definition js_whitespace :: "char \<Rightarrow> bool" where
  "js_whitespace c = (c \<in> set [CHR 0x09, CHR 0x0A, CHR 0x0B, CHR 0x0C, CHR 0x0D, CHR 0x20, CHR 0xA0])"

fun strip_sign :: "string \<Rightarrow> bool \<times> string" where
  "strip_sign [] = (False, [])"
| "strip_sign (c # cs) =
     (if c = CHR ''-'' then (True, cs) else if c = CHR ''+'' then (False, cs) else (False, c # cs))"

definition nat_of_digits :: "string \<Rightarrow> nat" where
  "nat_of_digits ds = foldl (\<lambda>a c. 10 * a + digit_val c) 0 ds"

definition parseFloat :: "string \<Rightarrow> jsnum" where
  "parseFloat s =
     (let (neg, u) = strip_sign (dropWhile js_whitespace s);
          ds = takeWhile is_digit u
      in if ds = [] then NaN
         else Fin (if neg then - int (nat_of_digits ds) else int (nat_of_digits ds)))"

definition integer_text :: "string \<Rightarrow> bool" where
  "integer_text s =
     (let (neg, u) = strip_sign (dropWhile js_whitespace s);
          ds = takeWhile is_digit u
      in length ds \<le> 15 \<and>
         (case dropWhile is_digit u of
            [] \<Rightarrow> True
          | c # _ \<Rightarrow> if ds = [] then c \<notin> set ''.I'' else c \<notin> set ''.eE''))"

subsection \<open>Colours and the mixing engine\<close>

text \<open>
  \<open>CSSColorValue\<close>: a type tag, the components and an optional alpha
  (\<open>Undefined\<close> when absent).
\<close>

record color =
  type :: string
  components :: "jsval list"
  alpha :: jsval

text \<open>An argument of type \<open>string | CSSColorValue\<close>.\<close>

datatype color_arg = Text string | Color color

text \<open>
  \<open>parseCssColor\<close> and \<open>colorToString\<close> are imported from another package; they
  are parameters of the model: \<open>parse\<close> of type \<open>string \<Rightarrow> color option\<close> and
  \<open>ser\<close> of type \<open>color \<Rightarrow> string\<close>.
\<close>

type_synonym parser = "string \<Rightarrow> color option"

definition mixComponent :: "jsval \<Rightarrow> jsval \<Rightarrow> jsval \<Rightarrow> string" where
  "mixComponent v1 v2 w =
     ''calc('' @ toStr v2 @ '' + ('' @ toStr v1 @ '' - '' @ toStr v2 @ '') * '' @ toStr w @ '' / 100)''"

text \<open>
  One round of the first loop of \<open>mixColor\<close>: a text is parsed, a colour is taken as
  it is; the round gives up unless the colour is there and its type is RGB.
\<close>

definition color_of :: "parser \<Rightarrow> color_arg \<Rightarrow> color option" where
  "color_of parse c = (case c of Text s \<Rightarrow> parse s | Color v \<Rightarrow> Some v)"

definition resolve :: "parser \<Rightarrow> color_arg \<Rightarrow> color option" where
  "resolve parse c =
     (case color_of parse c of
        None \<Rightarrow> None
      | Some col \<Rightarrow> if type col \<in> set [''rgb'', ''rgba''] then Some col else None)"

definition mixColor :: "parser \<Rightarrow> color_arg \<Rightarrow> color_arg \<Rightarrow> jsval \<Rightarrow> color option" where
  "mixColor parse color1 color2 weight =
     (case resolve parse color1 of
        None \<Rightarrow> None
      | Some c0 \<Rightarrow>
          (case resolve parse color2 of
             None \<Rightarrow> None
           | Some c1 \<Rightarrow>
               Some \<lparr> type = ''rgb'',
                      components =
                        map (\<lambda>x. Str (mixComponent (js_nth (components c0) x)
                                                     (js_nth (components c1) x) weight))
                            [0, 1, 2],
                      alpha = Str (mixComponent (nullish (alpha c0) (Num 1))
                                                 (nullish (alpha c1) (Num 1)) weight) \<rparr>))"

definition tint :: "parser \<Rightarrow> color_arg \<Rightarrow> jsval \<Rightarrow> color option" where
  "tint parse color weight = mixColor parse (Text ''#fff'') color weight"

definition shade :: "parser \<Rightarrow> color_arg \<Rightarrow> jsval \<Rightarrow> color option" where
  "shade parse color weight = mixColor parse (Text ''#000'') color weight"

definition shift :: "parser \<Rightarrow> color_arg \<Rightarrow> jsval \<Rightarrow> color option" where
  "shift parse color weight =
     (case parseFloat (toStr weight) of
        NaN \<Rightarrow> None
      | Fin num \<Rightarrow> if num > 0 then shade parse color weight else tint parse color (Num (- num)))"

text \<open>The table \<open>fns\<close>; a key that is not in it looks up to nothing.\<close>

definition fns :: "string \<Rightarrow> (parser \<Rightarrow> color_arg \<Rightarrow> jsval \<Rightarrow> color option) option" where
  "fns key =
     (if key = ''tint'' then Some tint
      else if key = ''shade'' then Some shade
      else if key = ''shift'' then Some shift
      else None)"

subsection \<open>The compiled pattern\<close>

text \<open>
  The pattern is compiled from the source text
  \<open>^mix-(tint|shade|shift)-(-?\d{1,3})(?:S)\<close>, where \<open>S\<close> is the configured separators
  joined by \<open>|\<close>, spliced in as they are. The head of the pattern is fixed; what the
  configuration decides is the disjunction \<open>S\<close>, so a compiled pattern is represented by
  the alternatives of \<open>S\<close>. The model reads the fragment of the pattern syntax made of
  ordinary characters, the dot, the bar and the two brackets of a group: an ordinary
  character matches itself, a dot matches any character but a line terminator, a bar
  separates alternatives, a \<open>)\<close> at the end of an alternative closes the group that is
  open, and a \<open>(?:\<close> at the start of an alternative opens a group. Any other syntax
  character, and a bracket in another place, is outside the model
  (\<open>PatternOutsideModel\<close>).
\<close>

datatype atom = Lit char | AnyChar | GroupOpen | GroupClose

type_synonym regexp = "atom list list"

definition syntax_chars :: string where
  "syntax_chars =
     [CHR ''^'', CHR ''$'', CHR 0x5C, CHR ''.'', CHR ''*'', CHR ''+'', CHR ''?'',
      CHR ''('', CHR '')'', CHR ''['', CHR '']'', CHR ''{'', CHR ''}'', CHR ''|'']"

text \<open>\<open>Array.prototype.join('|')\<close>.\<close>

fun join_bar :: "string list \<Rightarrow> string" where
  "join_bar [] = []"
| "join_bar [s] = s"
| "join_bar (s # t # ss) = s @ CHR ''|'' # join_bar (t # ss)"

text \<open>The alternatives of a disjunction: the source split at every bar.\<close>

fun split_bar :: "string \<Rightarrow> string list" where
  "split_bar [] = [[]]"
| "split_bar (c # cs) =
     (if c = CHR ''|'' then [] # split_bar cs
      else (case split_bar cs of [] \<Rightarrow> [[c]] | a # as \<Rightarrow> (c # a) # as))"

definition parse_atom :: "char \<Rightarrow> atom option" where
  "parse_atom c =
     (if c = CHR ''.'' then Some AnyChar
      else if c \<in> set syntax_chars then None
      else Some (Lit c))"

text \<open>One alternative of the source: its opening bracket, its atoms, its closing bracket.\<close>

definition parse_alt :: "string \<Rightarrow> atom list option" where
  "parse_alt alt =
     (let opened = (take 3 alt = ''(?:'');
          rest = (if opened then drop 3 alt else alt);
          closed = (rest \<noteq> [] \<and> last rest = CHR '')'')
      in case those (map parse_atom (if closed then butlast rest else rest)) of
           None \<Rightarrow> None
         | Some as \<Rightarrow>
             Some ((if opened then [GroupOpen] else []) @ as @ (if closed then [GroupClose] else [])))"

definition opens :: "atom list \<Rightarrow> bool" where
  "opens a = (a \<noteq> [] \<and> hd a = GroupOpen)"

definition closes :: "atom list \<Rightarrow> bool" where
  "closes a = (a \<noteq> [] \<and> last a = GroupClose)"

text \<open>
  The brackets of the alternatives must pair up with the \<open>(?:\<close> before \<open>S\<close> and the
  \<open>)\<close> after it: the first argument says whether a group is open. Inside a group no
  other group opens; outside, nothing closes that has not opened; at the end a group is
  open, which the \<open>)\<close> after \<open>S\<close> closes.
\<close>

fun well_formed :: "bool \<Rightarrow> atom list list \<Rightarrow> bool" where
  "well_formed inside [] = inside"
| "well_formed inside (a # as) =
     (if inside then \<not> opens a \<and> well_formed (\<not> closes a) as
      else \<not> (closes a \<and> \<not> opens a) \<and> well_formed (opens a \<and> \<not> closes a) as)"

definition compile :: "string list \<Rightarrow> error + regexp" where
  "compile separators =
     (case those (map parse_alt (split_bar (join_bar separators))) of
        None \<Rightarrow> Inl PatternOutsideModel
      | Some alts \<Rightarrow> if well_formed True alts then Inr alts else Inl PatternOutsideModel)"

text \<open>
  The alternatives up to the first closing bracket are the separators of the head. What
  follows them stands at the top level of the pattern: each further alternative is an
  alternative of the whole pattern, beside the head, and a group around such
  alternatives changes nothing.
\<close>

fun head_alts :: "regexp \<Rightarrow> regexp" where
  "head_alts [] = []"
| "head_alts (a # as) = (if closes a then [butlast a] else a # head_alts as)"

fun rest_alts :: "regexp \<Rightarrow> regexp" where
  "rest_alts [] = []"
| "rest_alts (a # as) = (if closes a then as else rest_alts as)"

definition top_alts :: "regexp \<Rightarrow> regexp" where
  "top_alts r = map (filter (\<lambda>t. t \<noteq> GroupOpen \<and> t \<noteq> GroupClose)) (rest_alts r)"

text \<open>
  The texts that the group \<open>(-?\d{1,3})\<close> can capture: an optional minus sign and one
  to three digits.
\<close>

definition weight_text :: "string \<Rightarrow> bool" where
  "weight_text w =
     (let ds = (case w of [] \<Rightarrow> [] | c # cs \<Rightarrow> if c = CHR ''-'' then cs else w)
      in 1 \<le> length ds \<and> length ds \<le> 3 \<and> list_all is_digit ds)"

text \<open>A separator without a character of the pattern syntax.\<close>

definition plain :: "string \<Rightarrow> bool" where
  "plain s = list_all (\<lambda>c. c \<notin> set syntax_chars) s"

subsection \<open>Matching, in the order the backtracking matcher tries\<close>

definition atom_matches :: "atom \<Rightarrow> char \<Rightarrow> bool" where
  "atom_matches a c =
     (case a of
        Lit d \<Rightarrow> c = d
      | AnyChar \<Rightarrow> c \<notin> set [CHR 0x0A, CHR 0x0D]
      | GroupOpen \<Rightarrow> False
      | GroupClose \<Rightarrow> False)"

text \<open>An alternative against the input: the text it consumed and what is left.\<close>

fun match_seq :: "atom list \<Rightarrow> string \<Rightarrow> (string \<times> string) option" where
  "match_seq [] s = Some ([], s)"
| "match_seq (a # as) [] = None"
| "match_seq (a # as) (c # s) =
     (if atom_matches a c
      then (case match_seq as s of None \<Rightarrow> None | Some (m, r) \<Rightarrow> Some (c # m, r))
      else None)"

text \<open>The disjunction: the first alternative, left to right, that matches.\<close>

fun match_alts :: "regexp \<Rightarrow> string \<Rightarrow> (string \<times> string) option" where
  "match_alts [] s = None"
| "match_alts (a # as) s =
     (case match_seq a s of Some r \<Rightarrow> Some r | None \<Rightarrow> match_alts as s)"

text \<open>
  \<open>\d{1,3}\<close> is greedy: \<open>k\<close> digits are tried for \<open>k\<close> from 3 down to 1, each followed
  by the separators. The result is the digits, the separator text and the rest.
\<close>

fun match_digits :: "nat \<Rightarrow> regexp \<Rightarrow> string \<Rightarrow> (string \<times> string \<times> string) option" where
  "match_digits 0 re s = None"
| "match_digits (Suc k) re s =
     (if Suc k \<le> length s \<and> list_all is_digit (take (Suc k) s)
      then (case match_alts re (drop (Suc k) s) of
              Some (sep, r) \<Rightarrow> Some (take (Suc k) s, sep, r)
            | None \<Rightarrow> match_digits k re s)
      else match_digits k re s)"

text \<open>\<open>-?\<close> is greedy too: with the sign first, then without.\<close>

definition match_weight :: "regexp \<Rightarrow> string \<Rightarrow> (string \<times> string \<times> string) option" where
  "match_weight re s =
     (case (case s of
              [] \<Rightarrow> None
            | c # cs \<Rightarrow>
                if c = CHR ''-''
                then (case match_digits 3 re cs of
                        None \<Rightarrow> None
                      | Some (ds, sep, r) \<Rightarrow> Some (c # ds, sep, r))
                else None) of
        Some res \<Rightarrow> Some res
      | None \<Rightarrow> match_digits 3 re s)"

definition strip_prefix :: "string \<Rightarrow> string \<Rightarrow> string option" where
  "strip_prefix p s = (if take (length p) s = p then Some (drop (length p) s) else None)"

text \<open>
  The group \<open>(tint|shade|shift)\<close> and what follows it: the modes in order, the next one
  when the rest of the pattern fails. The result is \<open>m[0]\<close> without its \<open>mix-\<close>,
  \<open>m[1]\<close> and \<open>m[2]\<close>.
\<close>

fun match_modes :: "string list \<Rightarrow> regexp \<Rightarrow> string \<Rightarrow> (string \<times> string \<times> string) option" where
  "match_modes [] re s = None"
| "match_modes (md # mds) re s =
     (case (case strip_prefix (md @ ''-'') s of
              None \<Rightarrow> None
            | Some s' \<Rightarrow>
                (case match_weight re s' of
                   None \<Rightarrow> None
                 | Some (w, sep, r) \<Rightarrow> Some (md @ ''-'' @ w @ sep, md, w))) of
        Some res \<Rightarrow> Some res
      | None \<Rightarrow> match_modes mds re s)"

definition modes :: "string list" where
  "modes = [''tint'', ''shade'', ''shift'']"

text \<open>
  The head \<open>^mix-(tint|shade|shift)-(-?\d{1,3})(?:...)\<close> with its separators: it is
  anchored at the start of the input, and the result is \<open>(m[0], m[1], m[2])\<close>.
\<close>

definition exec_head :: "regexp \<Rightarrow> string \<Rightarrow> (string \<times> string \<times> string) option" where
  "exec_head re s =
     (case strip_prefix ''mix-'' s of
        None \<Rightarrow> None
      | Some s' \<Rightarrow>
          (case match_modes modes re s' of
             None \<Rightarrow> None
           | Some (m, m1, m2) \<Rightarrow> Some (''mix-'' @ m, m1, m2)))"

text \<open>
  The alternatives beside the head are not anchored: they are tried at every position
  of the input, from the first on. The result is the text matched.
\<close>

fun scan :: "regexp \<Rightarrow> string \<Rightarrow> string option" where
  "scan ts [] = (case match_alts ts [] of None \<Rightarrow> None | Some (m, r) \<Rightarrow> Some m)"
| "scan ts (c # cs) =
     (case match_alts ts (c # cs) of Some (m, r) \<Rightarrow> Some m | None \<Rightarrow> scan ts cs)"

text \<open>
  \<open>matcher.match(re)\<close> for a pattern without flags: at the start of the input the head
  is tried first; then the other alternatives, there and at every later position. The
  result is \<open>(m[0], m[1], m[2])\<close>. The two groups belong to the head: when another
  alternative matches they are unset. The function \<open>body\<close> uses \<open>m[1]\<close> only as a
  property key and \<open>m[2]\<close> only through template literals, and both read an unset
  group as the text \<open>undefined\<close>; an unset group is kept as this text.
\<close>

definition exec :: "regexp \<Rightarrow> string \<Rightarrow> (string \<times> string \<times> string) option" where
  "exec re s =
     (case exec_head (head_alts re) s of
        Some m \<Rightarrow> Some m
      | None \<Rightarrow>
          (case scan (top_alts re) s of
             None \<Rightarrow> None
           | Some m0 \<Rightarrow> Some (m0, ''undefined'', ''undefined'')))"

subsection \<open>The variant object\<close>

text \<open>
  The state of one object returned by \<open>variantColorMix\<close> is the variable \<open>re\<close> of its
  closure: unset at first, then the pattern compiled by the first call of \<open>match\<close>.
\<close>

record variant =
  re :: "regexp option"

definition variantColorMix :: variant where
  "variantColorMix = \<lparr> re = None \<rparr>"

definition name :: string where
  "name = ''mix''"

text \<open>
  What \<open>match\<close> returns on success: the rest of the token, and the groups \<open>m[1]\<close> and
  \<open>m[2]\<close> that the function \<open>body\<close> of the result has captured (an unset group as the
  text \<open>undefined\<close>, see \<open>exec\<close>).
\<close>

record match_result =
  matcher :: string
  m1 :: string
  m2 :: string

text \<open>
  The second half of \<open>match\<close>: \<open>const m = matcher.match(re)\<close> and, if \<open>m\<close> is
  there, the result built from it. \<open>None\<close> is the host's \<open>undefined\<close>.
\<close>

definition matched :: "regexp \<Rightarrow> string \<Rightarrow> match_result option" where
  "matched r tok =
     (case exec r tok of
        None \<Rightarrow> None
      | Some (m0, g1, g2) \<Rightarrow> Some \<lparr> matcher = drop (length m0) tok, m1 = g1, m2 = g2 \<rparr>)"

text \<open>
  \<open>match(matcher, ctx)\<close>, with the separators of \<open>ctx.generator.config\<close>: the pattern
  is compiled if \<open>re\<close> is unset, and kept. The value is the result and the object's
  state after the call.
\<close>

definition match :: "variant \<Rightarrow> string \<Rightarrow> string list \<Rightarrow> error + (match_result option \<times> variant)" where
  "match v tok separators =
     (case (case re v of None \<Rightarrow> compile separators | Some r \<Rightarrow> Inr r) of
        Inl e \<Rightarrow> Inl e
      | Inr r \<Rightarrow> Inr (matched r tok, v\<lparr> re := Some r \<rparr>))"

text \<open>A sequence of calls on one object, each with its token and its separators.\<close>

fun calls :: "variant \<Rightarrow> (string \<times> string list) list \<Rightarrow> error + match_result option list" where
  "calls v [] = Inr []"
| "calls v ((tok, separators) # cs) =
     (case match v tok separators of
        Inl e \<Rightarrow> Inl e
      | Inr (res, v') \<Rightarrow>
          (case calls v' cs of Inl e \<Rightarrow> Inl e | Inr rs \<Rightarrow> Inr (res # rs)))"

subsection \<open>The rewrite of the entries\<close>

text \<open>
  An entry is a pair of a property name and a value. \<open>body\<close> walks the entries in order
  and overwrites the value of an entry in place; the entries are taken to be distinct
  objects. Calling a mode that is not in \<open>fns\<close> raises a \<open>TypeError\<close>.
\<close>

type_synonym entry = "string \<times> jsval"

definition body_entry :: "parser \<Rightarrow> (color \<Rightarrow> string) \<Rightarrow> string \<Rightarrow> string \<Rightarrow> entry \<Rightarrow> error + entry" where
  "body_entry parse colorToString g1 g2 v =
     (if truthy (snd v)
      then (case parse (toStr (snd v)) of
              None \<Rightarrow> Inr v
            | Some color \<Rightarrow>
                (case fns g1 of
                   None \<Rightarrow> Inl TypeError
                 | Some f \<Rightarrow>
                     (case f parse (Color color) (Str g2) of
                        None \<Rightarrow> Inr v
                      | Some mixed \<Rightarrow> Inr (fst v, Str (colorToString mixed)))))
      else Inr v)"

fun body :: "parser \<Rightarrow> (color \<Rightarrow> string) \<Rightarrow> string \<Rightarrow> string \<Rightarrow> entry list \<Rightarrow> error + entry list" where
  "body parse colorToString g1 g2 [] = Inr []"
| "body parse colorToString g1 g2 (v # vs) =
     (case body_entry parse colorToString g1 g2 v of
        Inl e \<Rightarrow> Inl e
      | Inr v' \<Rightarrow>
          (case body parse colorToString g1 g2 vs of
             Inl e \<Rightarrow> Inl e
           | Inr vs' \<Rightarrow> Inr (v' # vs')))"

text \<open>
  The value \<open>body\<close> stores for a value \<open>x\<close> that passes the test \<open>if (v[1])\<close>, with
  the mix function \<open>f\<close> of the mode: the serialized mix when the parse and the mix
  succeed, \<open>x\<close> itself otherwise.
\<close>

abbreviation rewritten :: "parser \<Rightarrow> (color \<Rightarrow> string) \<Rightarrow> (parser \<Rightarrow> color_arg \<Rightarrow> jsval \<Rightarrow> color option) \<Rightarrow> string \<Rightarrow> jsval \<Rightarrow> jsval" where
  "rewritten parse colorToString f g2 x \<equiv>
     (case parse (toStr x) of
        None \<Rightarrow> x
      | Some col \<Rightarrow>
          (case f parse (Color col) (Str g2) of
             None \<Rightarrow> x
           | Some mixed \<Rightarrow> Str (colorToString mixed)))"

subsection \<open>The value of an emitted expression\<close>

text \<open>
  Modelled from the spec: the colours that the parser, which is not part of this file,
  gives for the texts \<open>#fff\<close> and \<open>#000\<close>. The spec calls them white and black:
  an RGB colour with the three components 255, respectively 0, and no alpha.
\<close>

definition white :: color where
  "white = \<lparr> type = ''rgb'', components = [Num 255, Num 255, Num 255], alpha = Undefined \<rparr>"

definition black :: color where
  "black = \<lparr> type = ''rgb'', components = [Num 0, Num 0, Num 0], alpha = Undefined \<rparr>"

text \<open>
  The emitted text is an arithmetic expression that the consumer of the style value
  evaluates. \<open>cexpr\<close> is the syntax tree of such an expression over operands given as
  text, \<open>render\<close> its concrete syntax, and \<open>eval\<close> its value once a reading \<open>\<rho>\<close>
  gives every operand text its number. An operand is read as one value.
\<close>

datatype cexpr =
    Operand string
  | Hundred
  | Plus cexpr cexpr
  | Minus cexpr cexpr
  | Times cexpr cexpr
  | Over cexpr cexpr
  | Paren cexpr
  | Calc cexpr

fun render :: "cexpr \<Rightarrow> string" where
  "render (Operand s) = s"
| "render Hundred = ''100''"
| "render (Plus a b) = render a @ '' + '' @ render b"
| "render (Minus a b) = render a @ '' - '' @ render b"
| "render (Times a b) = render a @ '' * '' @ render b"
| "render (Over a b) = render a @ '' / '' @ render b"
| "render (Paren a) = ''('' @ render a @ '')''"
| "render (Calc a) = ''calc('' @ render a @ '')''"

fun eval :: "(string \<Rightarrow> rat) \<Rightarrow> cexpr \<Rightarrow> rat" where
  "eval \<rho> (Operand s) = \<rho> s"
| "eval \<rho> Hundred = 100"
| "eval \<rho> (Plus a b) = eval \<rho> a + eval \<rho> b"
| "eval \<rho> (Minus a b) = eval \<rho> a - eval \<rho> b"
| "eval \<rho> (Times a b) = eval \<rho> a * eval \<rho> b"
| "eval \<rho> (Over a b) = eval \<rho> a / eval \<rho> b"
| "eval \<rho> (Paren a) = eval \<rho> a"
| "eval \<rho> (Calc a) = eval \<rho> a"

text \<open>The tree of \<open>calc(v2 + (v1 - v2) * w / 100)\<close>, product before quotient.\<close>

definition mixExpr :: "string \<Rightarrow> string \<Rightarrow> string \<Rightarrow> cexpr" where
  "mixExpr v1 v2 w =
     Calc (Plus (Operand v2)
                (Over (Times (Paren (Minus (Operand v1) (Operand v2))) (Operand w)) Hundred))"

text \<open>
  The four operands a colour brings into a mix: its first three components and its
  alpha, 1 when it has none.
\<close>

definition channels :: "color \<Rightarrow> string list" where
  "channels c =
     map (\<lambda>x. toStr (js_nth (components c) x)) [0, 1, 2] @ [toStr (nullish (alpha c) (Num 1))]"

definition mix_exprs :: "color \<Rightarrow> color \<Rightarrow> jsval \<Rightarrow> cexpr list" where
  "mix_exprs c0 c1 w = map2 (\<lambda>a b. mixExpr a b (toStr w)) (channels c0) (channels c1)"

subsection \<open>A parser and a serializer for concrete instances\<close>

text \<open>
  The parser and the serializer are parameters of every statement. The concrete
  instances below use a parser that knows three hex texts and a serializer that writes
  \<open>type(c1 c2 c3 / alpha)\<close>.
\<close>

definition sample_parse :: parser where
  "sample_parse s =
     (if s = ''#fff'' then Some white
      else if s = ''#000'' then Some black
      else if s = ''#336699''
        then Some \<lparr> type = ''rgb'', components = [Num 51, Num 102, Num 153], alpha = Undefined \<rparr>
      else None)"

definition sample_ser :: "color \<Rightarrow> string" where
  "sample_ser c =
     type c @ ''('' @ toStr (js_nth (components c) 0) @ '' '' @ toStr (js_nth (components c) 1)
       @ '' '' @ toStr (js_nth (components c) 2) @ '' / '' @ toStr (alpha c) @ '')''"

section \<open>Facts about the model\<close>

subsection \<open>Numbers and their text\<close>

lemma parseFloat_examples:
  "parseFloat ''30'' = Fin 30" "parseFloat ''-30'' = Fin (- 30)" "parseFloat ''0'' = Fin 0"
  "parseFloat ''abc'' = NaN" "parseFloat ''-0'' = Fin 0"
  by code_simp+

lemma numToString_examples:
  "numToString 30 = ''30''" "numToString (- 30) = ''-30''" "numToString 0 = ''0''"
  "numToString 1 = ''1''" "numToString 255 = ''255''"
  by code_simp+

lemma mixComponent_weight_text:
  "toStr w = toStr w' \<Longrightarrow> mixComponent a b w = mixComponent a b w'"
  by (simp add: mixComponent_def)

lemma mixColor_weight_text:
  "toStr w = toStr w' \<Longrightarrow> mixColor parse a b w = mixColor parse a b w'"
  by (simp add: mixColor_def mixComponent_weight_text [of w w'] split: option.splits)

subsection \<open>Emitted expressions and their value\<close>

lemma render_mixExpr:
  "render (mixExpr (toStr v1) (toStr v2) (toStr w)) = mixComponent v1 v2 w"
  by (simp add: mixExpr_def mixComponent_def)

lemma eval_mixExpr:
  "eval \<rho> (mixExpr a b w) = \<rho> b + (\<rho> a - \<rho> b) * \<rho> w / 100"
  by (simp add: mixExpr_def)

lemma lerp_100: "b + (a - b) * 100 / 100 = (a::rat)"
proof -
  have "(a - b) * 100 / 100 = a - b"
    by (rule nonzero_mult_div_cancel_right) simp
  then show ?thesis by (simp only: add_diff_eq add_diff_cancel_left')
qed

lemma eval_mixExpr_0: "\<rho> w = 0 \<Longrightarrow> eval \<rho> (mixExpr a b w) = \<rho> b"
  by (simp add: eval_mixExpr)

lemma eval_mixExpr_100: "\<rho> w = 100 \<Longrightarrow> eval \<rho> (mixExpr a b w) = \<rho> a"
  by (simp only: eval_mixExpr lerp_100)

lemma mix_exprs_unfold:
  "mix_exprs c0 c1 w =
     [mixExpr (toStr (js_nth (components c0) 0)) (toStr (js_nth (components c1) 0)) (toStr w),
      mixExpr (toStr (js_nth (components c0) 1)) (toStr (js_nth (components c1) 1)) (toStr w),
      mixExpr (toStr (js_nth (components c0) 2)) (toStr (js_nth (components c1) 2)) (toStr w),
      mixExpr (toStr (nullish (alpha c0) (Num 1))) (toStr (nullish (alpha c1) (Num 1))) (toStr w)]"
  by (simp add: mix_exprs_def channels_def)

lemma channels_unfold:
  "channels c =
     [toStr (js_nth (components c) 0), toStr (js_nth (components c) 1),
      toStr (js_nth (components c) 2), toStr (nullish (alpha c) (Num 1))]"
  by (simp add: channels_def)

lemma mixColor_texts:
  assumes "type a \<in> {''rgb'', ''rgba''}" and "type b \<in> {''rgb'', ''rgba''}"
  shows "\<exists>t. mixColor parse (Color a) (Color b) w = Some t \<and>
           map toStr (components t) @ [toStr (alpha t)] = map render (mix_exprs a b w)"
proof -
  let ?t = "\<lparr> type = ''rgb'',
              components = map (\<lambda>x. Str (mixComponent (js_nth (components a) x)
                                       (js_nth (components b) x) w)) [0, 1, 2],
              alpha = Str (mixComponent (nullish (alpha a) (Num 1))
                                         (nullish (alpha b) (Num 1)) w) \<rparr>"
  from assms have "mixColor parse (Color a) (Color b) w = Some ?t"
    by (simp add: mixColor_def resolve_def color_of_def)
  moreover have "map toStr (components ?t) @ [toStr (alpha ?t)] = map render (mix_exprs a b w)"
    by (simp add: mix_exprs_unfold render_mixExpr)
  ultimately show ?thesis by blast
qed

lemma mixColor_parsed:
  "parse s = Some a \<Longrightarrow> mixColor parse (Text s) c w = mixColor parse (Color a) c w"
  by (simp add: mixColor_def resolve_def color_of_def)

lemma eval_mix_exprs_nth:
  "i < 4 \<Longrightarrow> eval \<rho> (mix_exprs a b w ! i) =
     \<rho> (channels b ! i) + (\<rho> (channels a ! i) - \<rho> (channels b ! i)) * \<rho> (toStr w) / 100"
proof -
  assume "i < 4"
  then have "i = 0 \<or> i = 1 \<or> i = 2 \<or> i = 3" by arith
  then show ?thesis
    by (auto simp: mix_exprs_unfold channels_unfold eval_mixExpr)
qed

lemma eval_mix_exprs_0:
  "\<rho> (toStr w) = 0 \<Longrightarrow> map (eval \<rho>) (mix_exprs a b w) = map \<rho> (channels b)"
  by (simp add: mix_exprs_unfold channels_unfold eval_mixExpr_0)

lemma eval_mix_exprs_100:
  "\<rho> (toStr w) = 100 \<Longrightarrow> map (eval \<rho>) (mix_exprs a b w) = map \<rho> (channels a)"
  by (simp add: mix_exprs_unfold channels_unfold eval_mixExpr_100)

lemma channels_white: "channels white = [''255'', ''255'', ''255'', ''1'']"
  by code_simp

lemma channels_black: "channels black = [''0'', ''0'', ''0'', ''1'']"
  by code_simp

subsection \<open>The rewrite of the entries\<close>

lemma fns_modes: "g1 \<in> set modes \<Longrightarrow> \<exists>f. fns g1 = Some f"
  by (auto simp: modes_def fns_def)

lemma body_entry_Some:
  "fns g1 = Some f \<Longrightarrow>
   body_entry parse ser g1 g2 v =
     Inr (fst v, if truthy (snd v) then rewritten parse ser f g2 (snd v) else snd v)"
  by (cases v) (simp add: body_entry_def split: option.splits)

lemma body_entry_falsy: "\<not> truthy (snd v) \<Longrightarrow> body_entry parse ser g1 g2 v = Inr v"
  by (simp add: body_entry_def)

lemma body_Some:
  "fns g1 = Some f \<Longrightarrow>
   body parse ser g1 g2 es =
     Inr (map (\<lambda>v. (fst v, if truthy (snd v) then rewritten parse ser f g2 (snd v) else snd v)) es)"
  by (induction es) (simp_all add: body_entry_Some)

lemma body_falsy_nth:
  "body parse ser g1 g2 es = Inr es' \<Longrightarrow> i < length es \<Longrightarrow> \<not> truthy (snd (es ! i)) \<Longrightarrow>
   es' ! i = es ! i"
proof (induction es arbitrary: es' i)
  case Nil
  then show ?case by simp
next
  case (Cons v vs)
  from Cons.prems(1) obtain v' vs' where
    v': "body_entry parse ser g1 g2 v = Inr v'" and
    vs': "body parse ser g1 g2 vs = Inr vs'" and
    es': "es' = v' # vs'"
    by (auto split: sum.splits)
  show ?case
  proof (cases i)
    case 0
    with Cons.prems(3) have "\<not> truthy (snd v)" by simp
    then have "body_entry parse ser g1 g2 v = Inr v" by (rule body_entry_falsy)
    with v' es' 0 show ?thesis by simp
  next
    case (Suc j)
    with Cons.prems have "j < length vs" and "\<not> truthy (snd (vs ! j))" by simp_all
    with Cons.IH [OF vs'] have "vs' ! j = vs ! j" by simp
    with es' Suc show ?thesis by simp
  qed
qed

lemma falsy_values:
  "(\<not> truthy v) = (v = Undefined \<or> v = Str [] \<or> v = Num 0 \<or> v = Bool False)"
  by (cases v) auto


subsection \<open>Compiling separators without syntax characters\<close>

lemma split_bar_not_Nil: "split_bar s \<noteq> []"
  by (induction s) (auto split: list.splits)

lemma split_bar_append:
  "CHR ''|'' \<notin> set s \<Longrightarrow> split_bar (s @ t) = (s @ hd (split_bar t)) # tl (split_bar t)"
proof (induction s)
  case Nil
  then show ?case using split_bar_not_Nil [of t] by simp
next
  case (Cons c s)
  then show ?case by auto
qed

lemma plain_no_bar: "plain s \<Longrightarrow> CHR ''|'' \<notin> set s"
  by (auto simp: plain_def list_all_iff syntax_chars_def)

lemma split_bar_join_bar:
  "separators \<noteq> [] \<Longrightarrow> list_all plain separators \<Longrightarrow>
   split_bar (join_bar separators) = separators"
proof (induction separators rule: join_bar.induct)
  case 1
  then show ?case by simp
next
  case (2 s)
  then have "CHR ''|'' \<notin> set s" by (simp add: plain_no_bar)
  from split_bar_append [OF this, of "[]"] show ?case by simp
next
  case (3 s t ss)
  then have "CHR ''|'' \<notin> set s" by (simp add: plain_no_bar)
  from split_bar_append [OF this, of "CHR ''|'' # join_bar (t # ss)"] 3 show ?case by simp
qed

lemma parse_atom_plain: "c \<notin> set syntax_chars \<Longrightarrow> parse_atom c = Some (Lit c)"
  by (auto simp: parse_atom_def syntax_chars_def)

lemma those_parse_atom_plain: "plain s \<Longrightarrow> those (map parse_atom s) = Some (map Lit s)"
  by (induction s) (simp_all add: plain_def parse_atom_plain)

lemma plain_no_bracket: "plain s \<Longrightarrow> CHR ''('' \<notin> set s \<and> CHR '')'' \<notin> set s"
  by (auto simp: plain_def list_all_iff syntax_chars_def)

lemma parse_alt_plain: "plain s \<Longrightarrow> parse_alt s = Some (map Lit s)"
proof -
  assume p: "plain s"
  have o: "take 3 s \<noteq> ''(?:''"
  proof
    assume "take 3 s = ''(?:''"
    then have "CHR ''('' \<in> set (take 3 s)" by simp
    then have "CHR ''('' \<in> set s" by (rule in_set_takeD)
    with plain_no_bracket [OF p] show False by simp
  qed
  have c: "\<not> (s \<noteq> [] \<and> last s = CHR '')'')"
  proof
    assume "s \<noteq> [] \<and> last s = CHR '')''"
    then have "CHR '')'' \<in> set s" using last_in_set [of s] by auto
    with plain_no_bracket [OF p] show False by simp
  qed
  from o c those_parse_atom_plain [OF p] show ?thesis
    by (auto simp: parse_alt_def Let_def)
qed

lemma those_alternatives_plain:
  "list_all plain ss \<Longrightarrow> those (map parse_alt ss) = Some (map (map Lit) ss)"
  by (induction ss) (simp_all add: parse_alt_plain)

lemma literal_not_bracket: "\<not> opens (map Lit s) \<and> \<not> closes (map Lit s)"
  by (cases s) (simp_all add: opens_def closes_def last_map)

lemma literal_unbroken: "list_all (\<lambda>a. \<not> closes a) (map (map Lit) ss)"
  by (simp add: list_all_iff literal_not_bracket)

lemma literal_well_formed: "well_formed True (map (map Lit) ss)"
  by (induction ss) (simp_all add: literal_not_bracket)

lemma compile_plain:
  "separators \<noteq> [] \<Longrightarrow> list_all plain separators \<Longrightarrow>
   compile separators = Inr (map (map Lit) separators)"
  by (simp add: compile_def split_bar_join_bar those_alternatives_plain literal_well_formed)

subsection \<open>The disjunction of the separators\<close>

lemma match_seq_sound: "match_seq as s = Some (m, r) \<Longrightarrow> s = m @ r \<and> length m = length as"
  by (induction as s arbitrary: m r rule: match_seq.induct)
     (auto split: if_splits option.splits)

lemma match_seq_Lit: "match_seq (map Lit p) (p @ r) = Some (p, r)"
  by (induction p) (simp_all add: atom_matches_def)

lemma match_seq_Lit_sound: "match_seq (map Lit p) s = Some (m, r) \<Longrightarrow> m = p"
proof (induction p arbitrary: s m r)
  case Nil
  then show ?case by simp
next
  case (Cons c p)
  show ?case
  proof (cases s)
    case Nil
    with Cons.prems show ?thesis by simp
  next
    case (Cons d s')
    with Cons.prems obtain m' where "match_seq (map Lit p) s' = Some (m', r)" and "m = d # m'"
      and "d = c"
      by (auto simp: atom_matches_def split: if_splits option.splits)
    with Cons.IH show ?thesis by auto
  qed
qed

lemma match_alts_sound: "match_alts rx s = Some (m, r) \<Longrightarrow> s = m @ r"
  by (induction rx) (auto split: option.splits dest: match_seq_sound)

lemma match_alts_Lit_sound:
  "match_alts (map (map Lit) ss) s = Some (m, r) \<Longrightarrow> m \<in> set ss"
  by (induction ss) (auto split: option.splits dest: match_seq_Lit_sound)

lemma match_alts_Lit_complete:
  "sep \<in> set ss \<Longrightarrow> match_alts (map (map Lit) ss) (sep @ r) \<noteq> None"
  by (induction ss) (auto simp: match_seq_Lit split: option.splits)

subsection \<open>The weight\<close>

lemma match_digits_sound:
  "match_digits k rx s = Some (ds, sep, r) \<Longrightarrow>
   s = ds @ sep @ r \<and> 1 \<le> length ds \<and> length ds \<le> k \<and> list_all is_digit ds \<and>
   match_alts rx (sep @ r) = Some (sep, r)"
proof (induction k)
  case 0
  then show ?case by simp
next
  case (Suc k)
  show ?case
  proof (cases "Suc k \<le> length s \<and> list_all is_digit (take (Suc k) s) \<and>
                match_alts rx (drop (Suc k) s) \<noteq> None")
    case True
    then obtain sep' r' where a: "match_alts rx (drop (Suc k) s) = Some (sep', r')"
      by auto
    with True Suc.prems have e: "ds = take (Suc k) s" "sep = sep'" "r = r'"
      by simp_all
    from a have d: "drop (Suc k) s = sep' @ r'" by (rule match_alts_sound)
    have "s = take (Suc k) s @ drop (Suc k) s" by simp
    with d e have "s = ds @ sep @ r" by simp
    moreover from True e have "length ds = Suc k" by simp
    moreover from True e have "list_all is_digit ds" by simp
    moreover from a d e have "match_alts rx (sep @ r) = Some (sep, r)" by simp
    ultimately show ?thesis by simp
  next
    case False
    with Suc.prems have "match_digits k rx s = Some (ds, sep, r)"
      by (auto split: option.splits if_splits)
    from Suc.IH [OF this] show ?thesis by simp
  qed
qed

lemma match_digits_complete:
  "1 \<le> length ds \<Longrightarrow> length ds \<le> k \<Longrightarrow> list_all is_digit ds \<Longrightarrow>
   match_alts rx t \<noteq> None \<Longrightarrow> match_digits k rx (ds @ t) \<noteq> None"
proof (induction k)
  case 0
  then show ?case by simp
next
  case (Suc k)
  show ?case
  proof (cases "length ds = Suc k")
    case True
    with Suc.prems show ?thesis by (auto split: option.splits)
  next
    case False
    with Suc.prems have "length ds \<le> k" by simp
    with Suc have "match_digits k rx (ds @ t) \<noteq> None" by simp
    then show ?thesis by (auto split: option.splits)
  qed
qed

lemma digit_not_minus: "is_digit c \<Longrightarrow> c \<noteq> CHR ''-''"
  by (auto simp: is_digit_def digit_chars_def)

lemma weight_text_digits:
  "1 \<le> length ds \<Longrightarrow> length ds \<le> 3 \<Longrightarrow> list_all is_digit ds \<Longrightarrow> weight_text ds"
  by (cases ds) (auto simp: weight_text_def digit_not_minus)

lemma weight_text_minus:
  "1 \<le> length ds \<Longrightarrow> length ds \<le> 3 \<Longrightarrow> list_all is_digit ds \<Longrightarrow>
   weight_text (CHR ''-'' # ds)"
  by (simp add: weight_text_def)

lemma weight_text_cases:
  "weight_text w \<Longrightarrow>
   (\<exists>ds. w = CHR ''-'' # ds \<and> 1 \<le> length ds \<and> length ds \<le> 3 \<and> list_all is_digit ds) \<or>
   (w \<noteq> [] \<and> hd w \<noteq> CHR ''-'' \<and> 1 \<le> length w \<and> length w \<le> 3 \<and> list_all is_digit w)"
  by (cases w) (auto simp: weight_text_def split: if_splits)

lemma match_weight_sound:
  "match_weight rx s = Some (w, sep, r) \<Longrightarrow>
   s = w @ sep @ r \<and> weight_text w \<and> match_alts rx (sep @ r) = Some (sep, r)"
proof -
  assume a: "match_weight rx s = Some (w, sep, r)"
  show ?thesis
  proof (cases "\<exists>cs ds. s = CHR ''-'' # cs \<and> match_digits 3 rx cs = Some (ds, sep, r) \<and>
                  w = CHR ''-'' # ds")
    case True
    then obtain cs ds where s: "s = CHR ''-'' # cs"
      and m: "match_digits 3 rx cs = Some (ds, sep, r)" and w: "w = CHR ''-'' # ds"
      by blast
    from match_digits_sound [OF m] s w show ?thesis
      by (simp add: weight_text_minus)
  next
    case False
    with a have "match_digits 3 rx s = Some (w, sep, r)"
      by (auto simp: match_weight_def split: list.splits if_splits option.splits)
    from match_digits_sound [OF this] show ?thesis
      by (simp add: weight_text_digits)
  qed
qed

lemma match_weight_complete:
  "weight_text w \<Longrightarrow> match_alts rx t \<noteq> None \<Longrightarrow> match_weight rx (w @ t) \<noteq> None"
proof -
  assume w: "weight_text w" and t: "match_alts rx t \<noteq> None"
  from weight_text_cases [OF w] show ?thesis
  proof
    assume "\<exists>ds. w = CHR ''-'' # ds \<and> 1 \<le> length ds \<and> length ds \<le> 3 \<and> list_all is_digit ds"
    then obtain ds where e: "w = CHR ''-'' # ds" and
      d: "1 \<le> length ds" "length ds \<le> 3" "list_all is_digit ds"
      by blast
    from match_digits_complete [OF d t] e show ?thesis
      by (auto simp: match_weight_def split: option.splits)
  next
    assume a: "w \<noteq> [] \<and> hd w \<noteq> CHR ''-'' \<and> 1 \<le> length w \<and> length w \<le> 3 \<and>
      list_all is_digit w"
    then have "match_digits 3 rx (w @ t) \<noteq> None"
      using t by (intro match_digits_complete) simp_all
    then show ?thesis
      by (auto simp: match_weight_def split: option.splits list.splits)
  qed
qed

subsection \<open>The modes and the whole pattern\<close>

lemma strip_prefix_sound: "strip_prefix p s = Some t \<Longrightarrow> s = p @ t"
  by (auto simp: strip_prefix_def split: if_splits) (metis append_take_drop_id)

lemma strip_prefix_append: "strip_prefix p (p @ t) = Some t"
  by (simp add: strip_prefix_def)

lemma match_modes_sound:
  "match_modes ms rx s = Some (m, g1, g2) \<Longrightarrow>
   g1 \<in> set ms \<and> weight_text g2 \<and>
   (\<exists>sep r. m = g1 @ ''-'' @ g2 @ sep \<and> s = m @ r \<and> match_alts rx (sep @ r) = Some (sep, r))"
proof (induction ms)
  case Nil
  then show ?case by simp
next
  case (Cons md mds)
  show ?case
  proof (cases "\<exists>s' sep r. strip_prefix (md @ ''-'') s = Some s' \<and>
                  match_weight rx s' = Some (g2, sep, r) \<and> g1 = md \<and> m = md @ ''-'' @ g2 @ sep")
    case True
    then obtain s' sep r where p: "strip_prefix (md @ ''-'') s = Some s'"
      and w: "match_weight rx s' = Some (g2, sep, r)" and g: "g1 = md"
      and m: "m = md @ ''-'' @ g2 @ sep"
      by blast
    from strip_prefix_sound [OF p] have s: "s = (md @ ''-'') @ s'" .
    from match_weight_sound [OF w] have "s' = g2 @ sep @ r" and "weight_text g2"
      and "match_alts rx (sep @ r) = Some (sep, r)"
      by simp_all
    with s g m show ?thesis by auto
  next
    case False
    with Cons.prems have "match_modes mds rx s = Some (m, g1, g2)"
      by (auto split: option.splits)
    from Cons.IH [OF this] show ?thesis by auto
  qed
qed

lemma match_modes_complete:
  "md \<in> set ms \<Longrightarrow> weight_text w \<Longrightarrow> match_alts rx t \<noteq> None \<Longrightarrow>
   match_modes ms rx (md @ ''-'' @ w @ t) \<noteq> None"
proof (induction ms)
  case Nil
  then show ?case by simp
next
  case (Cons a ms)
  show ?case
  proof (cases "a = md")
    case True
    from match_weight_complete [OF Cons.prems(2,3)]
    obtain res where "match_weight rx (w @ t) = Some res" by auto
    moreover have "strip_prefix (md @ ''-'') (md @ ''-'' @ w @ t) = Some (w @ t)"
      using strip_prefix_append [of "md @ ''-''" "w @ t"] by simp
    ultimately show ?thesis using True
      by (cases res) (simp split: option.splits)
  next
    case False
    with Cons have "match_modes ms rx (md @ ''-'' @ w @ t) \<noteq> None" by simp
    then show ?thesis by (auto split: option.splits)
  qed
qed

lemma exec_head_sound:
  "exec_head rx s = Some (m0, g1, g2) \<Longrightarrow>
   g1 \<in> set modes \<and> weight_text g2 \<and>
   (\<exists>sep r. m0 = ''mix-'' @ g1 @ ''-'' @ g2 @ sep \<and> s = m0 @ r \<and>
      match_alts rx (sep @ r) = Some (sep, r))"
proof -
  assume "exec_head rx s = Some (m0, g1, g2)"
  then obtain s' m where p: "strip_prefix ''mix-'' s = Some s'"
    and mm: "match_modes modes rx s' = Some (m, g1, g2)" and m0: "m0 = ''mix-'' @ m"
    by (auto simp: exec_head_def split: option.splits)
  from strip_prefix_sound [OF p] have s: "s = ''mix-'' @ s'" .
  from match_modes_sound [OF mm] obtain sep r where "g1 \<in> set modes" "weight_text g2"
    "m = g1 @ ''-'' @ g2 @ sep" "s' = m @ r" "match_alts rx (sep @ r) = Some (sep, r)"
    by blast
  with s m0 show ?thesis by auto
qed

lemma exec_head_complete:
  "md \<in> set modes \<Longrightarrow> weight_text w \<Longrightarrow> match_alts rx t \<noteq> None \<Longrightarrow>
   exec_head rx (''mix-'' @ md @ ''-'' @ w @ t) \<noteq> None"
proof -
  assume "md \<in> set modes" "weight_text w" "match_alts rx t \<noteq> None"
  then have "match_modes modes rx (md @ ''-'' @ w @ t) \<noteq> None"
    by (rule match_modes_complete)
  moreover have "strip_prefix ''mix-'' (''mix-'' @ md @ ''-'' @ w @ t) = Some (md @ ''-'' @ w @ t)"
    by (rule strip_prefix_append)
  ultimately show ?thesis
    by (auto simp: exec_head_def split: option.splits)
qed

subsection \<open>Patterns with and without alternatives beside the head\<close>

lemma scan_Nil: "scan [] s = None"
  by (induction s) simp_all

lemma unbroken_alts:
  "list_all (\<lambda>a. \<not> closes a) r \<Longrightarrow> head_alts r = r \<and> rest_alts r = []"
  by (induction r) simp_all

lemma exec_no_top: "top_alts r = [] \<Longrightarrow> exec r s = exec_head (head_alts r) s"
  by (simp add: exec_def scan_Nil split: option.splits)

lemma exec_unbroken: "list_all (\<lambda>a. \<not> closes a) r \<Longrightarrow> exec r s = exec_head r s"
  using unbroken_alts [of r] by (simp add: exec_no_top top_alts_def)

lemma exec_mode:
  "top_alts r = [] \<Longrightarrow> exec r s = Some (m0, g1, g2) \<Longrightarrow> g1 \<in> set modes"
  using exec_head_sound [of "head_alts r" s m0 g1 g2] by (simp add: exec_no_top)

lemma exec_sound:
  "list_all (\<lambda>a. \<not> closes a) rx \<Longrightarrow> exec rx s = Some (m0, g1, g2) \<Longrightarrow>
   g1 \<in> set modes \<and> weight_text g2 \<and>
   (\<exists>sep r. m0 = ''mix-'' @ g1 @ ''-'' @ g2 @ sep \<and> s = m0 @ r \<and>
      match_alts rx (sep @ r) = Some (sep, r))"
  using exec_head_sound [of rx s m0 g1 g2] by (simp add: exec_unbroken)

lemma exec_complete:
  "list_all (\<lambda>a. \<not> closes a) rx \<Longrightarrow> md \<in> set modes \<Longrightarrow> weight_text w \<Longrightarrow>
   match_alts rx t \<noteq> None \<Longrightarrow> exec rx (''mix-'' @ md @ ''-'' @ w @ t) \<noteq> None"
  using exec_head_complete [of md w rx t] by (simp add: exec_unbroken)

text \<open>Separators without a closing bracket leave no alternative beside the head.\<close>

lemma join_bar_chars: "c \<in> set (join_bar ss) \<Longrightarrow> c = CHR ''|'' \<or> (\<exists>s\<in>set ss. c \<in> set s)"
  by (induction ss rule: join_bar.induct) auto

lemma split_bar_chars: "x \<in> set (split_bar s) \<Longrightarrow> set x \<subseteq> set s"
proof (induction s arbitrary: x)
  case Nil
  then show ?case by simp
next
  case (Cons c cs)
  show ?case
  proof (cases "c = CHR ''|''")
    case True
    with Cons show ?thesis by auto
  next
    case False
    obtain a as where sp: "split_bar cs = a # as"
      using split_bar_not_Nil [of cs] by (cases "split_bar cs") auto
    with False Cons.prems have "x = c # a \<or> x \<in> set as" by simp
    then show ?thesis
    proof
      assume "x = c # a"
      moreover from sp have "a \<in> set (split_bar cs)" by simp
      ultimately show ?thesis using Cons.IH [of a] by auto
    next
      assume "x \<in> set as"
      with sp have "x \<in> set (split_bar cs)" by simp
      with Cons.IH [of x] show ?thesis by auto
    qed
  qed
qed

lemma parse_atom_no_bracket: "parse_atom c = Some a \<Longrightarrow> a \<noteq> GroupClose"
  by (auto simp: parse_atom_def split: if_splits)

lemma those_parse_atom_no_bracket:
  "those (map parse_atom s) = Some as \<Longrightarrow> GroupClose \<notin> set as"
  by (induction s arbitrary: as)
     (auto split: option.splits dest: parse_atom_no_bracket)

lemma parse_alt_not_closed:
  assumes "parse_alt t = Some a" and "CHR '')'' \<notin> set t"
  shows "\<not> closes a"
proof -
  have "\<exists>as. those (map parse_atom (if take 3 t = ''(?:'' then drop 3 t else t)) = Some as \<and>
      a = (if take 3 t = ''(?:'' then [GroupOpen] else []) @ as"
  proof (cases "take 3 t = ''(?:''")
    case True
    have "CHR '')'' \<notin> set (drop 3 t)"
      using assms(2) by (auto dest: in_set_dropD)
    then have n: "\<not> (drop 3 t \<noteq> [] \<and> last (drop 3 t) = CHR '')'')"
      using last_in_set [of "drop 3 t"] by auto
    have "parse_alt t =
        (case those (map parse_atom (drop 3 t)) of None \<Rightarrow> None | Some as \<Rightarrow> Some (GroupOpen # as))"
      unfolding parse_alt_def Let_def if_P [OF True] if_not_P [OF n] by (simp split: option.split)
    with assms(1) True show ?thesis by (simp split: option.splits)
  next
    case False
    have n: "\<not> (t \<noteq> [] \<and> last t = CHR '')'')"
      using assms(2) by (metis last_in_set)
    have "parse_alt t =
        (case those (map parse_atom t) of None \<Rightarrow> None | Some as \<Rightarrow> Some as)"
      unfolding parse_alt_def Let_def if_not_P [OF False] if_not_P [OF n] by (simp split: option.split)
    with assms(1) False show ?thesis by (simp split: option.splits)
  qed
  then obtain as where as: "those (map parse_atom (if take 3 t = ''(?:'' then drop 3 t else t)) = Some as"
    and a: "a = (if take 3 t = ''(?:'' then [GroupOpen] else []) @ as"
    by blast
  from those_parse_atom_no_bracket [OF as] have "GroupClose \<notin> set as" .
  with a have "GroupClose \<notin> set a" by auto
  then show ?thesis
    unfolding closes_def by (metis last_in_set)
qed

lemma those_parse_alt_not_closed:
  "those (map parse_alt ts) = Some r \<Longrightarrow> \<forall>t\<in>set ts. CHR '')'' \<notin> set t \<Longrightarrow>
   list_all (\<lambda>a. \<not> closes a) r"
  by (induction ts arbitrary: r)
     (auto split: option.splits dest: parse_alt_not_closed)

lemma compile_unbroken:
  assumes "compile separators = Inr r" and "\<forall>s\<in>set separators. CHR '')'' \<notin> set s"
  shows "list_all (\<lambda>a. \<not> closes a) r"
proof -
  from assms(1) have t: "those (map parse_alt (split_bar (join_bar separators))) = Some r"
    by (auto simp: compile_def split: option.splits if_splits)
  have "\<forall>t\<in>set (split_bar (join_bar separators)). CHR '')'' \<notin> set t"
  proof
    fix t
    assume "t \<in> set (split_bar (join_bar separators))"
    then have "set t \<subseteq> set (join_bar separators)" by (rule split_bar_chars)
    moreover have "CHR '')'' \<notin> set (join_bar separators)"
      using join_bar_chars [of "CHR '')''" separators] assms(2) by auto
    ultimately show "CHR '')'' \<notin> set t" by auto
  qed
  with t show ?thesis by (rule those_parse_alt_not_closed)
qed

subsection \<open>The captured weight as a number\<close>

lemma digit_plain_char:
  "is_digit c \<Longrightarrow> \<not> js_whitespace c \<and> c \<noteq> CHR ''-'' \<and> c \<noteq> CHR ''+''"
  by (auto simp: is_digit_def digit_chars_def js_whitespace_def)

lemma takeWhile_digits: "list_all is_digit ds \<Longrightarrow> takeWhile is_digit ds = ds"
  by (induction ds) simp_all

lemma dropWhile_digits: "list_all is_digit ds \<Longrightarrow> dropWhile is_digit ds = []"
  by (induction ds) simp_all

lemma digits_number:
  assumes "ds \<noteq> []" and "list_all is_digit ds" and "length ds \<le> 15"
  shows "integer_text ds \<and> parseFloat ds = Fin (int (nat_of_digits ds))
       \<and> integer_text (CHR ''-'' # ds) \<and> parseFloat (CHR ''-'' # ds) = Fin (- int (nat_of_digits ds))"
proof -
  from assms(1) obtain c cs where ds: "ds = c # cs" by (cases ds) auto
  with assms(2) have "is_digit c" by simp
  from digit_plain_char [OF this] have c: "\<not> js_whitespace c" "c \<noteq> CHR ''-''" "c \<noteq> CHR ''+''"
    by simp_all
  have m: "\<not> js_whitespace (CHR ''-'')" by (simp add: js_whitespace_def)
  from c ds have s1: "strip_sign (dropWhile js_whitespace ds) = (False, ds)" by simp
  from m have s2: "strip_sign (dropWhile js_whitespace (CHR ''-'' # ds)) = (True, ds)" by simp
  note t = takeWhile_digits [OF assms(2)] and d = dropWhile_digits [OF assms(2)]
  from assms(1,3) show ?thesis
    by (simp add: integer_text_def parseFloat_def s1 s2 t d del: strip_sign.simps dropWhile.simps)
qed

lemma weight_text_number:
  "weight_text w \<Longrightarrow> integer_text w \<and> parseFloat w \<noteq> NaN"
proof -
  assume "weight_text w"
  from weight_text_cases [OF this] show ?thesis
  proof
    assume "\<exists>ds. w = CHR ''-'' # ds \<and> 1 \<le> length ds \<and> length ds \<le> 3 \<and> list_all is_digit ds"
    then obtain ds where w: "w = CHR ''-'' # ds" and l: "1 \<le> length ds" "length ds \<le> 3"
      and d: "list_all is_digit ds"
      by blast
    from l have "ds \<noteq> []" and "length ds \<le> 15" by auto
    from digits_number [OF this(1) d this(2)] w show ?thesis by simp
  next
    assume "w \<noteq> [] \<and> hd w \<noteq> CHR ''-'' \<and> 1 \<le> length w \<and> length w \<le> 3 \<and> list_all is_digit w"
    then have "w \<noteq> []" "list_all is_digit w" "length w \<le> 15" by auto
    from digits_number [OF this] show ?thesis by simp
  qed
qed

subsection \<open>Calls of match\<close>

lemma match_fresh:
  "compile separators = Inr r \<Longrightarrow>
   match variantColorMix tok separators = Inr (matched r tok, \<lparr> re = Some r \<rparr>)"
  by (simp add: match_def variantColorMix_def)

lemma match_compiled:
  "re v = Some r \<Longrightarrow> match v tok separators = Inr (matched r tok, v)"
  by (simp add: match_def)

lemma match_result_matched:
  "match v tok separators = Inr (x, v') \<Longrightarrow> \<exists>r. re v' = Some r \<and> x = matched r tok"
  by (auto simp: match_def split: option.splits sum.splits)

lemma calls_compiled:
  "re v = Some r \<Longrightarrow> calls v cs = Inr (map (\<lambda>c. matched r (fst c)) cs)"
proof (induction cs)
  case Nil
  then show ?case by simp
next
  case (Cons c cs)
  obtain tok separators where c: "c = (tok, separators)" by (cases c)
  from Cons show ?case
    by (simp add: c match_compiled)
qed

lemma calls_fresh:
  assumes "compile separators0 = Inr r"
  shows "calls variantColorMix ((tok0, separators0) # cs) =
     Inr (map (\<lambda>c. matched r (fst c)) ((tok0, separators0) # cs))"
proof -
  have "re \<lparr> re = Some r \<rparr> = Some r" by simp
  then have "calls \<lparr> re = Some r \<rparr> cs = Inr (map (\<lambda>c. matched r (fst c)) cs)"
    by (rule calls_compiled)
  with match_fresh [OF assms, of tok0] show ?thesis by simp
qed

lemma matched_mode:
  "top_alts r = [] \<Longrightarrow> matched r tok = Some res \<Longrightarrow> m1 res \<in> set modes"
  by (auto simp: matched_def split: option.splits dest: exec_mode)

lemma matched_sound:
  assumes "matched r tok = Some res" and "list_all (\<lambda>a. \<not> closes a) r"
  shows "m1 res \<in> set modes \<and> weight_text (m2 res) \<and>
     (\<exists>sep. tok = ''mix-'' @ m1 res @ ''-'' @ m2 res @ sep @ matcher res \<and>
        match_alts r (sep @ matcher res) = Some (sep, matcher res))"
proof -
  from assms obtain m0 g1 g2 where e: "exec r tok = Some (m0, g1, g2)"
    and res: "res = \<lparr> matcher = drop (length m0) tok, m1 = g1, m2 = g2 \<rparr>"
    by (auto simp: matched_def split: option.splits)
  from exec_sound [OF assms(2) e] obtain sep t where g1: "g1 \<in> set modes" and g2: "weight_text g2"
    and m0: "m0 = ''mix-'' @ g1 @ ''-'' @ g2 @ sep" and tok: "tok = m0 @ t"
    and alt: "match_alts r (sep @ t) = Some (sep, t)"
    by blast
  from tok have "drop (length m0) tok = t" by simp
  with res have "matcher res = t" "m1 res = g1" "m2 res = g2" by simp_all
  with g1 g2 m0 tok alt show ?thesis by auto
qed

lemma matched_complete:
  "list_all (\<lambda>a. \<not> closes a) r \<Longrightarrow> md \<in> set modes \<Longrightarrow> weight_text w \<Longrightarrow>
   match_alts r t \<noteq> None \<Longrightarrow> matched r (''mix-'' @ md @ ''-'' @ w @ t) \<noteq> None"
  using exec_complete [of r md w t] by (auto simp: matched_def split: option.splits)

lemma modes_set: "set modes = {''tint'', ''shade'', ''shift''}"
  by (auto simp: modes_def)

subsection \<open>Concrete patterns and tokens\<close>

lemma plain_default: "list_all plain ['':'', ''-'']"
  by (simp add: plain_def syntax_chars_def)

lemma compile_examples:
  "compile ['':'', ''-''] = Inr [[Lit CHR '':''], [Lit CHR ''-'']]"
  "compile ['':''] = Inr [[Lit CHR '':'']]"
  "compile [''-''] = Inr [[Lit CHR ''-'']]"
  "compile [] = Inr [[]]"
  "compile [''.''] = Inr [[AnyChar]]"
  by code_simp+

lemma match_examples:
  "match variantColorMix ''mix-shade-30-'' ['':'', ''-''] =
     Inr (Some \<lparr> matcher = [], m1 = ''shade'', m2 = ''30'' \<rparr>,
          \<lparr> re = Some [[Lit CHR '':''], [Lit CHR ''-'']] \<rparr>)"
  "match variantColorMix ''mix-teal-30-'' ['':'', ''-''] =
     Inr (None, \<lparr> re = Some [[Lit CHR '':''], [Lit CHR ''-'']] \<rparr>)"
  "match variantColorMix ''mix-shade-3000-'' ['':'', ''-''] =
     Inr (None, \<lparr> re = Some [[Lit CHR '':''], [Lit CHR ''-'']] \<rparr>)"
  by code_simp+

lemma no_dot_decomposition:
  "CHR ''.'' \<notin> set tok \<Longrightarrow> tok \<noteq> a @ ''.'' @ b"
  by auto

section \<open>The mixing engine\<close>

text \<open>
  C1. For all values \<open>v1\<close>, \<open>v2\<close> and weight \<open>w\<close>, \<open>mixComponent\<close> returns the text
  \<open>calc(v2 + (v1 - v2) * w / 100)\<close> with the text of each argument put in as it is:
  a text argument verbatim, a number in its decimal notation. Nothing is evaluated:
  for 255, 10 and weight 0 the result is the whole expression and not \<open>10\<close>.
\<close>

theorem mixComponent_text:
  "mixComponent v1 v2 w =
     ''calc('' @ toStr v2 @ '' + ('' @ toStr v1 @ '' - '' @ toStr v2 @ '') * '' @ toStr w @ '' / 100)''
   \<and> mixComponent (Str a) (Str b) (Str c) =
     ''calc('' @ b @ '' + ('' @ a @ '' - '' @ b @ '') * '' @ c @ '' / 100)''
   \<and> mixComponent (Num 255) (Num 10) (Num 0) = ''calc(10 + (255 - 10) * 0 / 100)''
   \<and> mixComponent (Str ''var(--a)'') (Num 10) (Str ''30'') = ''calc(10 + (var(--a) - 10) * 30 / 100)''"
proof -
  have "mixComponent (Num 255) (Num 10) (Num 0) = ''calc(10 + (255 - 10) * 0 / 100)''"
    by code_simp
  moreover have "mixComponent (Str ''var(--a)'') (Num 10) (Str ''30'') =
      ''calc(10 + (var(--a) - 10) * 30 / 100)''"
    by code_simp
  ultimately show ?thesis
    by (simp add: mixComponent_def)
qed

text \<open>
  C2. \<open>mixColor\<close> returns nothing unless both arguments resolve to a colour whose type
  is \<open>rgb\<close> or \<open>rgba\<close>. When both do, the result has the type \<open>rgb\<close>, exactly three
  components, the \<open>i\<close>-th being \<open>mixComponent\<close> of the \<open>i\<close>-th components of the two
  colours, and an alpha that is \<open>mixComponent\<close> of the two alphas, a missing alpha
  taken as 1; so the result always has an alpha.
\<close>

theorem mixColor_rgb:
  "(mixColor parse color1 color2 w \<noteq> None) =
     (\<exists>a b. color_of parse color1 = Some a \<and> type a \<in> {''rgb'', ''rgba''} \<and>
            color_of parse color2 = Some b \<and> type b \<in> {''rgb'', ''rgba''})
   \<and> (\<forall>a b. color_of parse color1 = Some a \<and> type a \<in> {''rgb'', ''rgba''} \<and>
             color_of parse color2 = Some b \<and> type b \<in> {''rgb'', ''rgba''} \<longrightarrow>
        (\<exists>r. mixColor parse color1 color2 w = Some r \<and>
             type r = ''rgb'' \<and>
             length (components r) = 3 \<and>
             (\<forall>i<3. components r ! i =
                Str (mixComponent (js_nth (components a) i) (js_nth (components b) i) w)) \<and>
             (length (components a) = 3 \<and> length (components b) = 3 \<longrightarrow>
                (\<forall>i<3. components r ! i =
                   Str (mixComponent (components a ! i) (components b ! i) w))) \<and>
             alpha r = Str (mixComponent (nullish (alpha a) (Num 1)) (nullish (alpha b) (Num 1)) w) \<and>
             alpha r \<noteq> Undefined))"
proof (intro conjI allI impI)
  show "(mixColor parse color1 color2 w \<noteq> None) =
     (\<exists>a b. color_of parse color1 = Some a \<and> type a \<in> {''rgb'', ''rgba''} \<and>
            color_of parse color2 = Some b \<and> type b \<in> {''rgb'', ''rgba''})"
    by (auto simp: mixColor_def resolve_def split: option.splits)
next
  fix a b
  assume h: "color_of parse color1 = Some a \<and> type a \<in> {''rgb'', ''rgba''} \<and>
             color_of parse color2 = Some b \<and> type b \<in> {''rgb'', ''rgba''}"
  let ?r = "\<lparr> type = ''rgb'',
              components = map (\<lambda>x. Str (mixComponent (js_nth (components a) x)
                                       (js_nth (components b) x) w)) [0, 1, 2],
              alpha = Str (mixComponent (nullish (alpha a) (Num 1))
                                         (nullish (alpha b) (Num 1)) w) \<rparr>"
  from h have ra: "resolve parse color1 = Some a" and rb: "resolve parse color2 = Some b"
    by (auto simp: resolve_def)
  have m: "mixColor parse color1 color2 w = Some ?r"
    by (simp add: mixColor_def ra rb)
  have nth: "\<forall>i<3. components ?r ! i =
      Str (mixComponent (js_nth (components a) i) (js_nth (components b) i) w)"
    by (simp add: less_Suc_eq numeral_3_eq_3 numeral_2_eq_2)
  have nth': "length (components a) = 3 \<and> length (components b) = 3 \<longrightarrow>
      (\<forall>i<3. components ?r ! i = Str (mixComponent (components a ! i) (components b ! i) w))"
  proof (intro impI allI)
    fix i :: nat
    assume l: "length (components a) = 3 \<and> length (components b) = 3" and i: "i < 3"
    from l i have "js_nth (components a) i = components a ! i"
      and "js_nth (components b) i = components b ! i"
      by (simp_all add: js_nth_def)
    with nth i show "components ?r ! i = Str (mixComponent (components a ! i) (components b ! i) w)"
      by simp
  qed
  show "\<exists>r. mixColor parse color1 color2 w = Some r \<and>
             type r = ''rgb'' \<and>
             length (components r) = 3 \<and>
             (\<forall>i<3. components r ! i =
                Str (mixComponent (js_nth (components a) i) (js_nth (components b) i) w)) \<and>
             (length (components a) = 3 \<and> length (components b) = 3 \<longrightarrow>
                (\<forall>i<3. components r ! i =
                   Str (mixComponent (components a ! i) (components b ! i) w))) \<and>
             alpha r = Str (mixComponent (nullish (alpha a) (Num 1)) (nullish (alpha b) (Num 1)) w) \<and>
             alpha r \<noteq> Undefined"
    apply (rule exI [of _ ?r])
    apply (intro conjI)
          apply (rule m)
         apply simp
        apply simp
       apply (rule nth)
      apply (rule nth')
     apply simp
    apply simp
    done
qed

theorem mixColor_rgb_witness:
  "(\<exists>a b. color_of (\<lambda>s. if s = ''#fff'' then Some white else None) (Text ''#fff'') = Some a \<and>
      type a \<in> {''rgb'', ''rgba''} \<and>
      color_of (\<lambda>s. if s = ''#fff'' then Some white else None)
        (Color \<lparr> type = ''rgba'', components = [Num 51, Str ''102'', Num 153], alpha = Str ''0.5'' \<rparr>)
        = Some b \<and>
      type b \<in> {''rgb'', ''rgba''})
   \<and> mixColor (\<lambda>s. if s = ''#fff'' then Some white else None) (Text ''#fff'')
          (Color \<lparr> type = ''rgba'', components = [Num 51, Str ''102'', Num 153], alpha = Str ''0.5'' \<rparr>)
          (Str ''30'') \<noteq> None
   \<and> mixColor (\<lambda>s. if s = ''#fff'' then Some white else None) (Text ''#fff'')
          (Color \<lparr> type = ''rgba'', components = [Num 51, Str ''102'', Num 153], alpha = Str ''0.5'' \<rparr>)
          (Str ''30'') =
       Some \<lparr> type = ''rgb'',
              components = [Str ''calc(51 + (255 - 51) * 30 / 100)'',
                            Str ''calc(102 + (255 - 102) * 30 / 100)'',
                            Str ''calc(153 + (255 - 153) * 30 / 100)''],
              alpha = Str ''calc(0.5 + (1 - 0.5) * 30 / 100)'' \<rparr>"
proof -
  let ?p = "\<lambda>s. if s = ''#fff'' then Some white else None"
  let ?c = "\<lparr> type = ''rgba'', components = [Num 51, Str ''102'', Num 153], alpha = Str ''0.5'' \<rparr>"
  have c1: "color_of ?p (Text ''#fff'') = Some white \<and> type white \<in> {''rgb'', ''rgba''}"
    by (simp add: color_of_def white_def)
  have c2: "color_of ?p (Color ?c) = Some ?c \<and> type ?c \<in> {''rgb'', ''rgba''}"
    by (simp add: color_of_def)
  have ex: "\<exists>a b. color_of ?p (Text ''#fff'') = Some a \<and> type a \<in> {''rgb'', ''rgba''} \<and>
      color_of ?p (Color ?c) = Some b \<and> type b \<in> {''rgb'', ''rgba''}"
    using c1 c2 by blast
  have ne: "mixColor ?p (Text ''#fff'') (Color ?c) (Str ''30'') \<noteq> None"
    using conjunct1 [OF mixColor_rgb [of ?p "Text ''#fff''" "Color ?c" "Str ''30''"]] ex
    by (rule iffD2)
  have ev: "mixColor ?p (Text ''#fff'') (Color ?c) (Str ''30'') =
      Some \<lparr> type = ''rgb'',
             components = [Str ''calc(51 + (255 - 51) * 30 / 100)'',
                           Str ''calc(102 + (255 - 102) * 30 / 100)'',
                           Str ''calc(153 + (255 - 153) * 30 / 100)''],
             alpha = Str ''calc(0.5 + (1 - 0.5) * 30 / 100)'' \<rparr>"
    by code_simp
  from ex ne ev show ?thesis by (intro conjI)
qed

text \<open>
  C4. \<open>shift\<close> parses the weight as a number. On a weight that is not a number it
  returns nothing; on a number above zero it is \<open>shade\<close> with the weight as given; on
  a number below zero it is \<open>tint\<close> with the negated, hence positive, number; at zero
  it takes the \<open>tint\<close> branch with the number 0. So \<open>shift(C, 30)\<close> is
  \<open>shade(C, 30)\<close> and \<open>shift(C, -30)\<close> is \<open>tint(C, 30)\<close>, for the number and for
  its text alike. The weights are those whose numeric prefix is an integer literal;
  every weight that the pattern captures is one, and is a number.
\<close>

theorem shift_by_sign:
  "(integer_text (toStr w) \<longrightarrow>
      (parseFloat (toStr w) = NaN \<longrightarrow> shift parse c w = None) \<and>
      (\<forall>n. parseFloat (toStr w) = Fin n \<and> 0 < n \<longrightarrow> shift parse c w = shade parse c w) \<and>
      (\<forall>n. parseFloat (toStr w) = Fin n \<and> n < 0 \<longrightarrow>
         shift parse c w = tint parse c (Num (- n)) \<and> 0 < - n) \<and>
      (parseFloat (toStr w) = Fin 0 \<longrightarrow> shift parse c w = tint parse c (Num 0)))
   \<and> shift parse c (Num 30) = shade parse c (Num 30)
   \<and> shift parse c (Num (- 30)) = tint parse c (Num 30)
   \<and> shift parse c (Str ''30'') = shade parse c (Str ''30'')
   \<and> shift parse c (Str ''-30'') = tint parse c (Num 30)
   \<and> tint parse c (Num 30) = tint parse c (Str ''30'')
   \<and> shift parse c (Str ''0'') = tint parse c (Num 0)
   \<and> shift parse c (Str ''abc'') = None
   \<and> (weight_text (toStr w) \<longrightarrow> integer_text (toStr w) \<and> parseFloat (toStr w) \<noteq> NaN)"
proof -
  have general: "integer_text (toStr w) \<longrightarrow>
      (parseFloat (toStr w) = NaN \<longrightarrow> shift parse c w = None) \<and>
      (\<forall>n. parseFloat (toStr w) = Fin n \<and> 0 < n \<longrightarrow> shift parse c w = shade parse c w) \<and>
      (\<forall>n. parseFloat (toStr w) = Fin n \<and> n < 0 \<longrightarrow>
         shift parse c w = tint parse c (Num (- n)) \<and> 0 < - n) \<and>
      (parseFloat (toStr w) = Fin 0 \<longrightarrow> shift parse c w = tint parse c (Num 0))"
    by (simp add: shift_def)
  have n30: "shift parse c (Num 30) = shade parse c (Num 30)"
    by (simp add: shift_def numToString_examples parseFloat_examples)
  have m30: "shift parse c (Num (- 30)) = tint parse c (Num 30)"
    by (simp add: shift_def numToString_examples parseFloat_examples)
  have s30: "shift parse c (Str ''30'') = shade parse c (Str ''30'')"
    by (simp add: shift_def parseFloat_examples)
  have sm30: "shift parse c (Str ''-30'') = tint parse c (Num 30)"
    by (simp add: shift_def parseFloat_examples)
  have t30: "tint parse c (Num 30) = tint parse c (Str ''30'')"
    unfolding tint_def by (rule mixColor_weight_text) (simp add: numToString_examples)
  have s0: "shift parse c (Str ''0'') = tint parse c (Num 0)"
    by (simp add: shift_def parseFloat_examples)
  have sabc: "shift parse c (Str ''abc'') = None"
    by (simp add: shift_def parseFloat_examples)
  have wt: "weight_text (toStr w) \<longrightarrow> integer_text (toStr w) \<and> parseFloat (toStr w) \<noteq> NaN"
    using weight_text_number by blast
  from general n30 m30 s30 sm30 t30 s0 sabc wt show ?thesis
    by (intro conjI)
qed

theorem shift_by_sign_witness:
  "integer_text (toStr (Str ''-7'')) \<and> parseFloat (toStr (Str ''-7'')) = Fin (- 7) \<and>
   shift (\<lambda>s. if s = ''#fff'' then Some white else None) (Color black) (Str ''-7'') =
     tint (\<lambda>s. if s = ''#fff'' then Some white else None) (Color black) (Num 7) \<and>
   tint (\<lambda>s. if s = ''#fff'' then Some white else None) (Color black) (Num 7) =
     Some \<lparr> type = ''rgb'',
            components = [Str ''calc(0 + (255 - 0) * 7 / 100)'',
                          Str ''calc(0 + (255 - 0) * 7 / 100)'',
                          Str ''calc(0 + (255 - 0) * 7 / 100)''],
            alpha = Str ''calc(1 + (1 - 1) * 7 / 100)'' \<rparr>"
proof -
  let ?p = "\<lambda>s. if s = ''#fff'' then Some white else None"
  have it: "integer_text (toStr (Str ''-7''))" by code_simp
  have pf: "parseFloat (toStr (Str ''-7'')) = Fin (- 7)" by code_simp
  from shift_by_sign [of "Str ''-7''" ?p "Color black"] it pf
  have sh: "shift ?p (Color black) (Str ''-7'') = tint ?p (Color black) (Num (- (- 7)))"
    by simp
  have ev: "tint ?p (Color black) (Num 7) =
     Some \<lparr> type = ''rgb'',
            components = [Str ''calc(0 + (255 - 0) * 7 / 100)'',
                          Str ''calc(0 + (255 - 0) * 7 / 100)'',
                          Str ''calc(0 + (255 - 0) * 7 / 100)''],
            alpha = Str ''calc(1 + (1 - 1) * 7 / 100)'' \<rparr>"
    by code_simp
  from sh have sh': "shift ?p (Color black) (Str ''-7'') = tint ?p (Color black) (Num 7)"
    by simp
  from it pf sh' ev show ?thesis by (intro conjI)
qed

text \<open>
  C5. \<open>tint\<close> is \<open>mixColor\<close> with the text \<open>#fff\<close> as first colour and \<open>shade\<close> with
  \<open>#000\<close>; for a parser that reads these texts as white and black and for an RGB
  colour \<open>C\<close> they are \<open>mixColor\<close> of white, respectively black, and \<open>C\<close>, and they
  return a colour for every weight: no weight is clamped or rejected. The texts of the
  result are the concrete syntax of the expressions \<open>mix_exprs\<close>, whose value under any
  reading \<open>\<rho>\<close> of the operands is \<open>C + (white - C) * w / 100\<close> (black for \<open>shade\<close>),
  whatever the weight; with the weight read as 0 the values are those of \<open>C\<close>, with the
  weight read as 100 those of white, respectively black.
\<close>

theorem tint_shade_mix:
  assumes "parse ''#fff'' = Some white" and "parse ''#000'' = Some black"
    and "type C \<in> {''rgb'', ''rgba''}"
  shows "tint parse c w = mixColor parse (Text ''#fff'') c w
    \<and> shade parse c w = mixColor parse (Text ''#000'') c w
    \<and> tint parse (Color C) w = mixColor parse (Color white) (Color C) w
    \<and> shade parse (Color C) w = mixColor parse (Color black) (Color C) w
    \<and> (\<exists>t. tint parse (Color C) w = Some t \<and>
          map toStr (components t) @ [toStr (alpha t)] = map render (mix_exprs white C w))
    \<and> (\<exists>t. shade parse (Color C) w = Some t \<and>
          map toStr (components t) @ [toStr (alpha t)] = map render (mix_exprs black C w))
    \<and> (\<forall>\<rho>. \<rho> (toStr w) = 0 \<longrightarrow>
          map (eval \<rho>) (mix_exprs white C w) = map \<rho> (channels C) \<and>
          map (eval \<rho>) (mix_exprs black C w) = map \<rho> (channels C))
    \<and> (\<forall>\<rho>. \<rho> (toStr w) = 100 \<longrightarrow>
          map (eval \<rho>) (mix_exprs white C w) = map \<rho> [''255'', ''255'', ''255'', ''1''] \<and>
          map (eval \<rho>) (mix_exprs black C w) = map \<rho> [''0'', ''0'', ''0'', ''1''])
    \<and> (\<forall>\<rho>. \<forall>i<4.
          eval \<rho> (mix_exprs white C w ! i) =
            \<rho> (channels C ! i) + (\<rho> (channels white ! i) - \<rho> (channels C ! i)) * \<rho> (toStr w) / 100 \<and>
          eval \<rho> (mix_exprs black C w ! i) =
            \<rho> (channels C ! i) + (\<rho> (channels black ! i) - \<rho> (channels C ! i)) * \<rho> (toStr w) / 100)"
proof -
  have wt: "type white \<in> {''rgb'', ''rgba''}" and bt: "type black \<in> {''rgb'', ''rgba''}"
    by (simp_all add: white_def black_def)
  have d1: "tint parse c w = mixColor parse (Text ''#fff'') c w"
    by (simp add: tint_def)
  have d2: "shade parse c w = mixColor parse (Text ''#000'') c w"
    by (simp add: shade_def)
  have t: "tint parse (Color C) w = mixColor parse (Color white) (Color C) w"
    unfolding tint_def using assms(1) by (rule mixColor_parsed)
  have s: "shade parse (Color C) w = mixColor parse (Color black) (Color C) w"
    unfolding shade_def using assms(2) by (rule mixColor_parsed)
  have te: "\<exists>t. tint parse (Color C) w = Some t \<and>
          map toStr (components t) @ [toStr (alpha t)] = map render (mix_exprs white C w)"
    unfolding t using wt assms(3) by (rule mixColor_texts)
  have se: "\<exists>t. shade parse (Color C) w = Some t \<and>
          map toStr (components t) @ [toStr (alpha t)] = map render (mix_exprs black C w)"
    unfolding s using bt assms(3) by (rule mixColor_texts)
  have z: "\<forall>\<rho>. \<rho> (toStr w) = 0 \<longrightarrow>
          map (eval \<rho>) (mix_exprs white C w) = map \<rho> (channels C) \<and>
          map (eval \<rho>) (mix_exprs black C w) = map \<rho> (channels C)"
    by (simp add: eval_mix_exprs_0)
  have h: "\<forall>\<rho>. \<rho> (toStr w) = 100 \<longrightarrow>
          map (eval \<rho>) (mix_exprs white C w) = map \<rho> [''255'', ''255'', ''255'', ''1''] \<and>
          map (eval \<rho>) (mix_exprs black C w) = map \<rho> [''0'', ''0'', ''0'', ''1'']"
    using eval_mix_exprs_100 [of _ w white C] eval_mix_exprs_100 [of _ w black C]
    by (simp only: channels_white channels_black) blast
  have g: "\<forall>\<rho>. \<forall>i<4.
          eval \<rho> (mix_exprs white C w ! i) =
            \<rho> (channels C ! i) + (\<rho> (channels white ! i) - \<rho> (channels C ! i)) * \<rho> (toStr w) / 100 \<and>
          eval \<rho> (mix_exprs black C w ! i) =
            \<rho> (channels C ! i) + (\<rho> (channels black ! i) - \<rho> (channels C ! i)) * \<rho> (toStr w) / 100"
    using eval_mix_exprs_nth by blast
  from d1 d2 t s te se z h g show ?thesis by (intro conjI)
qed

theorem tint_shade_mix_witness:
  "(\<lambda>s. if s = ''#fff'' then Some white else if s = ''#000'' then Some black else None) ''#fff''
      = Some white
   \<and> (\<lambda>s. if s = ''#fff'' then Some white else if s = ''#000'' then Some black else None) ''#000''
      = Some black
   \<and> type \<lparr> type = ''rgba'', components = [Num 51, Num 102, Num 153], alpha = Undefined \<rparr>
        \<in> {''rgb'', ''rgba''}
   \<and> (\<lambda>s. of_nat (nat_of_digits s)) (toStr (Str ''100'')) = (100 :: rat)
   \<and> map (eval (\<lambda>s. of_nat (nat_of_digits s)))
         (mix_exprs white
            \<lparr> type = ''rgba'', components = [Num 51, Num 102, Num 153], alpha = Undefined \<rparr>
            (Str ''100'')) = [255, 255, 255, 1]
   \<and> map (eval (\<lambda>s. of_nat (nat_of_digits s)))
         (mix_exprs black
            \<lparr> type = ''rgba'', components = [Num 51, Num 102, Num 153], alpha = Undefined \<rparr>
            (Str ''100'')) = [0, 0, 0, 1]
   \<and> tint (\<lambda>s. if s = ''#fff'' then Some white else if s = ''#000'' then Some black else None)
         (Color \<lparr> type = ''rgba'', components = [Num 51, Num 102, Num 153], alpha = Undefined \<rparr>)
         (Str ''100'') =
       Some \<lparr> type = ''rgb'',
              components = [Str ''calc(51 + (255 - 51) * 100 / 100)'',
                            Str ''calc(102 + (255 - 102) * 100 / 100)'',
                            Str ''calc(153 + (255 - 153) * 100 / 100)''],
              alpha = Str ''calc(1 + (1 - 1) * 100 / 100)'' \<rparr>"
proof -
  let ?p = "\<lambda>s. if s = ''#fff'' then Some white else if s = ''#000'' then Some black else None"
  let ?C = "\<lparr> type = ''rgba'', components = [Num 51, Num 102, Num 153], alpha = Undefined \<rparr>"
  let ?r = "\<lambda>s. (of_nat (nat_of_digits s) :: rat)"
  have p1: "?p ''#fff'' = Some white" by simp
  have p2: "?p ''#000'' = Some black" by simp
  have p3: "type ?C \<in> {''rgb'', ''rgba''}" by simp
  have r100: "?r (toStr (Str ''100'')) = 100" by code_simp
  note th = tint_shade_mix [OF p1 p2 p3, of "Color ?C" "Str ''100''"]
  from th have al: "\<forall>\<rho>. \<rho> (toStr (Str ''100'')) = 100 \<longrightarrow>
      map (eval \<rho>) (mix_exprs white ?C (Str ''100'')) = map \<rho> [''255'', ''255'', ''255'', ''1''] \<and>
      map (eval \<rho>) (mix_exprs black ?C (Str ''100'')) = map \<rho> [''0'', ''0'', ''0'', ''1'']"
    apply (elim conjE)
    apply assumption
    done
  from spec [OF al, where x = ?r] r100
  have ev: "map (eval ?r) (mix_exprs white ?C (Str ''100'')) = map ?r [''255'', ''255'', ''255'', ''1''] \<and>
      map (eval ?r) (mix_exprs black ?C (Str ''100'')) = map ?r [''0'', ''0'', ''0'', ''1'']"
    by (rule mp)
  have vw: "map ?r [''255'', ''255'', ''255'', ''1''] = [255, 255, 255, 1]" by code_simp
  have vb: "map ?r [''0'', ''0'', ''0'', ''1''] = [0, 0, 0, 1]" by code_simp
  from conjunct1 [OF ev] vw
  have w: "map (eval ?r) (mix_exprs white ?C (Str ''100'')) = [255, 255, 255, 1]"
    by (rule trans)
  from conjunct2 [OF ev] vb
  have b: "map (eval ?r) (mix_exprs black ?C (Str ''100'')) = [0, 0, 0, 1]"
    by (rule trans)
  have t: "tint ?p (Color ?C) (Str ''100'') =
       Some \<lparr> type = ''rgb'',
              components = [Str ''calc(51 + (255 - 51) * 100 / 100)'',
                            Str ''calc(102 + (255 - 102) * 100 / 100)'',
                            Str ''calc(153 + (255 - 153) * 100 / 100)''],
              alpha = Str ''calc(1 + (1 - 1) * 100 / 100)'' \<rparr>"
    by code_simp
  from p1 p2 p3 r100 w b t show ?thesis by (intro conjI)
qed

section \<open>The token matcher\<close>

text \<open>
  C3 (amended). For a configuration with at least one separator, none of which contains
  a character of the pattern syntax, \<open>match\<close> on a fresh object succeeds exactly when
  the token begins with \<open>mix-\<close>, one of the modes \<open>tint\<close>, \<open>shade\<close>, \<open>shift\<close>, a
  \<open>-\<close>, a weight of one to three digits with an optional leading \<open>-\<close>, and one of the
  configured separators. On success \<open>m[1]\<close> is that mode, \<open>m[2]\<close> that weight, and the
  rest that is returned is the token without exactly this prefix: nothing more is
  consumed. With the separators \<open>:\<close> and \<open>-\<close>, the token \<open>mix-shade-30-\<close> matches with
  mode \<open>shade\<close> and weight \<open>30\<close>, and \<open>mix-teal-30-\<close> and \<open>mix-shade-3000-\<close> do not
  match.
\<close>

theorem match_shape:
  assumes "separators \<noteq> []" and "list_all plain separators"
  shows "(\<exists>res v'. match variantColorMix tok separators = Inr (res, v') \<and>
      ((res \<noteq> None) =
         (\<exists>md\<in>set modes. \<exists>w sep rest. weight_text w \<and> sep \<in> set separators \<and>
            tok = ''mix-'' @ md @ ''-'' @ w @ sep @ rest)) \<and>
      (\<forall>x. res = Some x \<longrightarrow>
         m1 x \<in> set modes \<and> weight_text (m2 x) \<and>
         (\<exists>sep\<in>set separators. tok = ''mix-'' @ m1 x @ ''-'' @ m2 x @ sep @ matcher x)))
    \<and> match variantColorMix ''mix-shade-30-'' ['':'', ''-''] =
        Inr (Some \<lparr> matcher = [], m1 = ''shade'', m2 = ''30'' \<rparr>,
             \<lparr> re = Some [[Lit CHR '':''], [Lit CHR ''-'']] \<rparr>)
    \<and> match variantColorMix ''mix-teal-30-'' ['':'', ''-''] =
        Inr (None, \<lparr> re = Some [[Lit CHR '':''], [Lit CHR ''-'']] \<rparr>)
    \<and> match variantColorMix ''mix-shade-3000-'' ['':'', ''-''] =
        Inr (None, \<lparr> re = Some [[Lit CHR '':''], [Lit CHR ''-'']] \<rparr>)"
proof -
  let ?r = "map (map Lit) separators"
  from assms have c: "compile separators = Inr ?r" by (rule compile_plain)
  have m: "match variantColorMix tok separators = Inr (matched ?r tok, \<lparr> re = Some ?r \<rparr>)"
    using c by (rule match_fresh)
  have sound: "\<forall>x. matched ?r tok = Some x \<longrightarrow>
         m1 x \<in> set modes \<and> weight_text (m2 x) \<and>
         (\<exists>sep\<in>set separators. tok = ''mix-'' @ m1 x @ ''-'' @ m2 x @ sep @ matcher x)"
  proof (intro allI impI)
    fix x
    assume "matched ?r tok = Some x"
    from matched_sound [OF this literal_unbroken]
    obtain sep where "m1 x \<in> set modes" "weight_text (m2 x)"
      "tok = ''mix-'' @ m1 x @ ''-'' @ m2 x @ sep @ matcher x"
      "match_alts ?r (sep @ matcher x) = Some (sep, matcher x)"
      by blast
    moreover from this(4) have "sep \<in> set separators" by (rule match_alts_Lit_sound)
    ultimately show "m1 x \<in> set modes \<and> weight_text (m2 x) \<and>
         (\<exists>sep\<in>set separators. tok = ''mix-'' @ m1 x @ ''-'' @ m2 x @ sep @ matcher x)"
      by blast
  qed
  have iff: "(matched ?r tok \<noteq> None) =
         (\<exists>md\<in>set modes. \<exists>w sep rest. weight_text w \<and> sep \<in> set separators \<and>
            tok = ''mix-'' @ md @ ''-'' @ w @ sep @ rest)"
  proof
    assume "matched ?r tok \<noteq> None"
    then obtain x where "matched ?r tok = Some x" by blast
    with sound show "\<exists>md\<in>set modes. \<exists>w sep rest. weight_text w \<and> sep \<in> set separators \<and>
            tok = ''mix-'' @ md @ ''-'' @ w @ sep @ rest"
      by blast
  next
    assume "\<exists>md\<in>set modes. \<exists>w sep rest. weight_text w \<and> sep \<in> set separators \<and>
            tok = ''mix-'' @ md @ ''-'' @ w @ sep @ rest"
    then obtain md w sep rest where md: "md \<in> set modes" and w: "weight_text w"
      and sep: "sep \<in> set separators" and tok: "tok = ''mix-'' @ md @ ''-'' @ w @ sep @ rest"
      by blast
    from sep have "match_alts ?r (sep @ rest) \<noteq> None" by (rule match_alts_Lit_complete)
    with literal_unbroken md w
    have "matched ?r (''mix-'' @ md @ ''-'' @ w @ sep @ rest) \<noteq> None"
      by (rule matched_complete)
    with tok show "matched ?r tok \<noteq> None" by simp
  qed
  from m iff sound
  have main: "\<exists>res v'. match variantColorMix tok separators = Inr (res, v') \<and>
      ((res \<noteq> None) =
         (\<exists>md\<in>set modes. \<exists>w sep rest. weight_text w \<and> sep \<in> set separators \<and>
            tok = ''mix-'' @ md @ ''-'' @ w @ sep @ rest)) \<and>
      (\<forall>x. res = Some x \<longrightarrow>
         m1 x \<in> set modes \<and> weight_text (m2 x) \<and>
         (\<exists>sep\<in>set separators. tok = ''mix-'' @ m1 x @ ''-'' @ m2 x @ sep @ matcher x))"
    by blast
  from main match_examples show ?thesis by (intro conjI)
qed

text \<open>An instance: the separators \<open>:\<close> and \<open>-\<close> and a token with a negative weight.\<close>

theorem match_shape_witness:
  "['':'', ''-''] \<noteq> [] \<and> list_all plain ['':'', ''-''] \<and>
   (\<exists>res v'. match variantColorMix ''mix-shift--30:hover:x'' ['':'', ''-''] = Inr (res, v') \<and>
      (res \<noteq> None) =
        (\<exists>md\<in>set modes. \<exists>w sep rest. weight_text w \<and> sep \<in> set ['':'', ''-''] \<and>
           ''mix-shift--30:hover:x'' = ''mix-'' @ md @ ''-'' @ w @ sep @ rest)) \<and>
   match variantColorMix ''mix-shift--30:hover:x'' ['':'', ''-''] =
     Inr (Some \<lparr> matcher = ''hover:x'', m1 = ''shift'', m2 = ''-30'' \<rparr>,
          \<lparr> re = Some [[Lit CHR '':''], [Lit CHR ''-'']] \<rparr>)"
proof -
  have n: "['':'', ''-''] \<noteq> ([] :: string list)" by simp
  from match_shape [OF n plain_default, of "''mix-shift--30:hover:x''"]
  obtain res v' where "match variantColorMix ''mix-shift--30:hover:x'' ['':'', ''-''] = Inr (res, v')"
    and "(res \<noteq> None) =
        (\<exists>md\<in>set modes. \<exists>w sep rest. weight_text w \<and> sep \<in> set ['':'', ''-''] \<and>
           ''mix-shift--30:hover:x'' = ''mix-'' @ md @ ''-'' @ w @ sep @ rest)"
    by (elim exE conjE)
  then have ex: "\<exists>res v'. match variantColorMix ''mix-shift--30:hover:x'' ['':'', ''-''] = Inr (res, v') \<and>
      (res \<noteq> None) =
        (\<exists>md\<in>set modes. \<exists>w sep rest. weight_text w \<and> sep \<in> set ['':'', ''-''] \<and>
           ''mix-shift--30:hover:x'' = ''mix-'' @ md @ ''-'' @ w @ sep @ rest)"
    by (intro exI conjI)
  have ev: "match variantColorMix ''mix-shift--30:hover:x'' ['':'', ''-''] =
     Inr (Some \<lparr> matcher = ''hover:x'', m1 = ''shift'', m2 = ''-30'' \<rparr>,
          \<lparr> re = Some [[Lit CHR '':''], [Lit CHR ''-'']] \<rparr>)"
    by code_simp
  from n plain_default ex ev show ?thesis by (intro conjI)
qed

text \<open>
  Stated for every configuration, C3 fails: with no separator configured the token
  \<open>mix-shade-30\<close> matches, and with the separator \<open>.\<close> the token \<open>mix-tint-5+rest\<close>
  matches, although in neither token a configured separator follows the weight.
\<close>

theorem match_shape_counterexample:
  "(\<exists>res v'. match variantColorMix ''mix-shade-30'' [] = Inr (Some res, v'))
   \<and> \<not> (\<exists>md\<in>set modes. \<exists>w sep rest. weight_text w \<and> sep \<in> set [] \<and>
           ''mix-shade-30'' = ''mix-'' @ md @ ''-'' @ w @ sep @ rest)
   \<and> (\<exists>res v'. match variantColorMix ''mix-tint-5+rest'' [''.''] = Inr (Some res, v'))
   \<and> \<not> (\<exists>md\<in>set modes. \<exists>w sep rest. weight_text w \<and> sep \<in> set [''.''] \<and>
           ''mix-tint-5+rest'' = ''mix-'' @ md @ ''-'' @ w @ sep @ rest)"
proof -
  have a: "match variantColorMix ''mix-shade-30'' [] =
      Inr (Some \<lparr> matcher = [], m1 = ''shade'', m2 = ''30'' \<rparr>, \<lparr> re = Some [[]] \<rparr>)"
    by code_simp
  have b: "match variantColorMix ''mix-tint-5+rest'' [''.''] =
      Inr (Some \<lparr> matcher = ''rest'', m1 = ''tint'', m2 = ''5'' \<rparr>, \<lparr> re = Some [[AnyChar]] \<rparr>)"
    by code_simp
  have c: "\<not> (\<exists>md\<in>set modes. \<exists>w sep rest. weight_text w \<and> sep \<in> set [] \<and>
           ''mix-shade-30'' = ''mix-'' @ md @ ''-'' @ w @ sep @ rest)"
    by simp
  have d: "\<not> (\<exists>md\<in>set modes. \<exists>w sep rest. weight_text w \<and> sep \<in> set [''.''] \<and>
           ''mix-tint-5+rest'' = ''mix-'' @ md @ ''-'' @ w @ sep @ rest)"
  proof
    assume "\<exists>md\<in>set modes. \<exists>w sep rest. weight_text w \<and> sep \<in> set [''.''] \<and>
           ''mix-tint-5+rest'' = ''mix-'' @ md @ ''-'' @ w @ sep @ rest"
    then obtain md w rest where "''mix-tint-5+rest'' = (''mix-'' @ md @ ''-'' @ w) @ ''.'' @ rest"
      by auto
    moreover have "CHR ''.'' \<notin> set ''mix-tint-5+rest''" by simp
    ultimately show False using no_dot_decomposition by blast
  qed
  from a have a': "\<exists>res v'. match variantColorMix ''mix-shade-30'' [] = Inr (Some res, v')"
    by blast
  from b have b': "\<exists>res v'. match variantColorMix ''mix-tint-5+rest'' [''.''] = Inr (Some res, v')"
    by blast
  from a' c b' d show ?thesis by (intro conjI)
qed

text \<open>
  C7 (amended). The separators are spliced into the pattern source as they are. When
  there is at least one separator and none contains a character of the pattern syntax,
  the compiled alternatives are the separators read literally: the disjunction matches
  nothing but one of the configured separators verbatim, and a token matches only when
  its weight is followed by one of them.
\<close>

theorem separators_verbatim:
  assumes "separators \<noteq> []" and "list_all plain separators"
  shows "compile separators = Inr (map (map Lit) separators)
    \<and> (\<forall>t m r. match_alts (map (map Lit) separators) t = Some (m, r) \<longrightarrow>
          m \<in> set separators \<and> t = m @ r)
    \<and> (\<forall>tok res v'. match variantColorMix tok separators = Inr (Some res, v') \<longrightarrow>
          (\<exists>sep\<in>set separators. tok = ''mix-'' @ m1 res @ ''-'' @ m2 res @ sep @ matcher res))"
proof -
  let ?r = "map (map Lit) separators"
  from assms have c: "compile separators = Inr ?r" by (rule compile_plain)
  have a: "\<forall>t m r. match_alts ?r t = Some (m, r) \<longrightarrow> m \<in> set separators \<and> t = m @ r"
    using match_alts_Lit_sound match_alts_sound by blast
  have m: "\<forall>tok res v'. match variantColorMix tok separators = Inr (Some res, v') \<longrightarrow>
          (\<exists>sep\<in>set separators. tok = ''mix-'' @ m1 res @ ''-'' @ m2 res @ sep @ matcher res)"
  proof (intro allI impI)
    fix tok res v'
    assume "match variantColorMix tok separators = Inr (Some res, v')"
    with match_fresh [OF c, of tok] have "matched ?r tok = Some res" by simp
    from matched_sound [OF this literal_unbroken] obtain sep where
      t: "tok = ''mix-'' @ m1 res @ ''-'' @ m2 res @ sep @ matcher res" and
      s: "match_alts ?r (sep @ matcher res) = Some (sep, matcher res)"
      by blast
    from s have "sep \<in> set separators" by (rule match_alts_Lit_sound)
    with t show "\<exists>sep\<in>set separators. tok = ''mix-'' @ m1 res @ ''-'' @ m2 res @ sep @ matcher res"
      by blast
  qed
  from c a m show ?thesis by (intro conjI)
qed

text \<open>An instance: the separators \<open>__\<close> and \<open>:\<close>.\<close>

theorem separators_verbatim_witness:
  "[''__'', '':''] \<noteq> [] \<and> list_all plain [''__'', '':''] \<and>
   compile [''__'', '':''] = Inr [[Lit CHR ''_'', Lit CHR ''_''], [Lit CHR '':'']] \<and>
   match variantColorMix ''mix-tint-10__bg-red'' [''__'', '':''] =
     Inr (Some \<lparr> matcher = ''bg-red'', m1 = ''tint'', m2 = ''10'' \<rparr>,
          \<lparr> re = Some [[Lit CHR ''_'', Lit CHR ''_''], [Lit CHR '':'']] \<rparr>) \<and>
   match variantColorMix ''mix-tint-10_bg-red'' [''__'', '':''] =
     Inr (None, \<lparr> re = Some [[Lit CHR ''_'', Lit CHR ''_''], [Lit CHR '':'']] \<rparr>)"
proof -
  have n: "[''__'', '':''] \<noteq> ([] :: string list)" by simp
  have p: "list_all plain [''__'', '':'']" by (simp add: plain_def syntax_chars_def)
  from separators_verbatim [OF n p]
  have "compile [''__'', '':''] = Inr (map (map Lit) [''__'', '':''])"
    by (rule conjunct1)
  then have c: "compile [''__'', '':''] = Inr [[Lit CHR ''_'', Lit CHR ''_''], [Lit CHR '':'']]"
    by simp
  have a: "match variantColorMix ''mix-tint-10__bg-red'' [''__'', '':''] =
     Inr (Some \<lparr> matcher = ''bg-red'', m1 = ''tint'', m2 = ''10'' \<rparr>,
          \<lparr> re = Some [[Lit CHR ''_'', Lit CHR ''_''], [Lit CHR '':'']] \<rparr>)"
    by code_simp
  have b: "match variantColorMix ''mix-tint-10_bg-red'' [''__'', '':''] =
     Inr (None, \<lparr> re = Some [[Lit CHR ''_'', Lit CHR ''_''], [Lit CHR '':'']] \<rparr>)"
    by code_simp
  from n p c a b show ?thesis by (intro conjI)
qed

text \<open>
  A separator is not escaped: the separator \<open>.\<close> compiles to the wildcard and not to
  the literal dot, so \<open>mix-shade-30xrest\<close> matches although it contains no dot; and
  with no separator configured the weight need not be followed by anything.
\<close>

theorem separators_verbatim_counterexample:
  "match variantColorMix ''mix-shade-30xrest'' [''.''] =
     Inr (Some \<lparr> matcher = ''rest'', m1 = ''shade'', m2 = ''30'' \<rparr>, \<lparr> re = Some [[AnyChar]] \<rparr>)
   \<and> \<not> (\<exists>a b. ''mix-shade-30xrest'' = a @ ''.'' @ b)
   \<and> compile [''.''] \<noteq> Inr [[Lit CHR ''.'']]
   \<and> match variantColorMix ''mix-tint-5'' [] =
     Inr (Some \<lparr> matcher = [], m1 = ''tint'', m2 = ''5'' \<rparr>, \<lparr> re = Some [[]] \<rparr>)"
proof -
  have a: "match variantColorMix ''mix-shade-30xrest'' [''.''] =
     Inr (Some \<lparr> matcher = ''rest'', m1 = ''shade'', m2 = ''30'' \<rparr>, \<lparr> re = Some [[AnyChar]] \<rparr>)"
    by code_simp
  have "CHR ''.'' \<notin> set ''mix-shade-30xrest''" by simp
  then have b: "\<not> (\<exists>a b. ''mix-shade-30xrest'' = a @ ''.'' @ b)"
    using no_dot_decomposition by blast
  have c: "compile [''.''] \<noteq> Inr [[Lit CHR ''.'']]"
    by (simp add: compile_examples)
  have d: "match variantColorMix ''mix-tint-5'' [] =
     Inr (Some \<lparr> matcher = [], m1 = ''tint'', m2 = ''5'' \<rparr>, \<lparr> re = Some [[]] \<rparr>)"
    by code_simp
  from a b c d show ?thesis by (intro conjI)
qed

text \<open>
  C8 (amended). An object compiles its pattern from the separators of its first call of
  \<open>match\<close> and keeps it: in a sequence of calls on a fresh object, every result is
  determined by the token of that call and the separators of the first call. For the
  calls that carry the separators of the first call, the result is the one a fresh
  object gives for that token and that configuration.
\<close>

theorem pattern_of_first_call:
  assumes "compile separators0 = Inr r"
  shows "calls variantColorMix ((tok0, separators0) # cs) =
      Inr (map (\<lambda>c. matched r (fst c)) ((tok0, separators0) # cs))
    \<and> (\<forall>c\<in>set ((tok0, separators0) # cs). snd c = separators0 \<longrightarrow>
          match variantColorMix (fst c) (snd c) = Inr (matched r (fst c), \<lparr> re = Some r \<rparr>))"
proof -
  have a: "calls variantColorMix ((tok0, separators0) # cs) =
      Inr (map (\<lambda>c. matched r (fst c)) ((tok0, separators0) # cs))"
    using assms by (rule calls_fresh)
  have b: "\<forall>c\<in>set ((tok0, separators0) # cs). snd c = separators0 \<longrightarrow>
          match variantColorMix (fst c) (snd c) = Inr (matched r (fst c), \<lparr> re = Some r \<rparr>)"
    using match_fresh [OF assms] by blast
  from a b show ?thesis by (rule conjI)
qed

text \<open>
  An instance: three calls, the first with the separator \<open>:\<close>, the others with \<open>-\<close>.
\<close>

theorem pattern_of_first_call_witness:
  "compile ['':''] = Inr [[Lit CHR '':'']] \<and>
   calls variantColorMix
     [(''mix-shade-30:x'', ['':'']), (''mix-shade-30-x'', [''-'']), (''mix-tint-5:y'', [''-''])] =
   Inr (map (\<lambda>c. matched [[Lit CHR '':'']] (fst c))
     [(''mix-shade-30:x'', ['':'']), (''mix-shade-30-x'', [''-'']), (''mix-tint-5:y'', [''-''])]) \<and>
   map (\<lambda>c. matched [[Lit CHR '':'']] (fst c))
     [(''mix-shade-30:x'', ['':'']), (''mix-shade-30-x'', [''-'']), (''mix-tint-5:y'', [''-''])] =
   [Some \<lparr> matcher = ''x'', m1 = ''shade'', m2 = ''30'' \<rparr>, None,
    Some \<lparr> matcher = ''y'', m1 = ''tint'', m2 = ''5'' \<rparr>]"
proof -
  have c: "compile ['':''] = Inr [[Lit CHR '':'']]" by (simp add: compile_examples)
  from pattern_of_first_call [OF c, of "''mix-shade-30:x''"
      "[(''mix-shade-30-x'', [''-'']), (''mix-tint-5:y'', [''-''])]"]
  have a: "calls variantColorMix
     [(''mix-shade-30:x'', ['':'']), (''mix-shade-30-x'', [''-'']), (''mix-tint-5:y'', [''-''])] =
   Inr (map (\<lambda>c. matched [[Lit CHR '':'']] (fst c))
     [(''mix-shade-30:x'', ['':'']), (''mix-shade-30-x'', [''-'']), (''mix-tint-5:y'', [''-''])])"
    by (rule conjunct1)
  have b: "map (\<lambda>c. matched [[Lit CHR '':'']] (fst c))
     [(''mix-shade-30:x'', ['':'']), (''mix-shade-30-x'', [''-'']), (''mix-tint-5:y'', [''-''])] =
   [Some \<lparr> matcher = ''x'', m1 = ''shade'', m2 = ''30'' \<rparr>, None,
    Some \<lparr> matcher = ''y'', m1 = ''tint'', m2 = ''5'' \<rparr>]"
    by code_simp
  from c a b show ?thesis by (intro conjI)
qed

text \<open>
  The pattern is reused across configurations: after a first call with the separator
  \<open>:\<close>, a call with the separator \<open>-\<close> on \<open>mix-shade-30-x\<close> finds nothing, while a
  fresh object matches the same token under the same configuration.
\<close>

theorem pattern_reused_counterexample:
  "match variantColorMix ''mix-tint-5:y'' ['':''] =
     Inr (Some \<lparr> matcher = ''y'', m1 = ''tint'', m2 = ''5'' \<rparr>, \<lparr> re = Some [[Lit CHR '':'']] \<rparr>)
   \<and> match \<lparr> re = Some [[Lit CHR '':'']] \<rparr> ''mix-shade-30-x'' [''-''] =
     Inr (None, \<lparr> re = Some [[Lit CHR '':'']] \<rparr>)
   \<and> match variantColorMix ''mix-shade-30-x'' [''-''] =
     Inr (Some \<lparr> matcher = ''x'', m1 = ''shade'', m2 = ''30'' \<rparr>, \<lparr> re = Some [[Lit CHR ''-'']] \<rparr>)"
proof -
  have a: "match variantColorMix ''mix-tint-5:y'' ['':''] =
     Inr (Some \<lparr> matcher = ''y'', m1 = ''tint'', m2 = ''5'' \<rparr>, \<lparr> re = Some [[Lit CHR '':'']] \<rparr>)"
    by code_simp
  have b: "match \<lparr> re = Some [[Lit CHR '':'']] \<rparr> ''mix-shade-30-x'' [''-''] =
     Inr (None, \<lparr> re = Some [[Lit CHR '':'']] \<rparr>)"
    by code_simp
  have c: "match variantColorMix ''mix-shade-30-x'' [''-''] =
     Inr (Some \<lparr> matcher = ''x'', m1 = ''shade'', m2 = ''30'' \<rparr>, \<lparr> re = Some [[Lit CHR ''-'']] \<rparr>)"
    by code_simp
  from a b c show ?thesis by (intro conjI)
qed

text \<open>
  C9 (amended). When the pattern in force has no alternative beside the head, the mode
  captured by a successful \<open>match\<close> is \<open>tint\<close>, \<open>shade\<close> or \<open>shift\<close>; so the lookup
  in \<open>fns\<close> is defined and \<open>body\<close> does not raise the \<open>TypeError\<close> of calling what is
  not a function: it returns a list. The pattern of a fresh object is such a pattern
  whenever no configured separator contains a closing bracket. The branch is there:
  with a mode outside the table, \<open>body\<close> raises.
\<close>

theorem matched_mode_defined:
  assumes "match v tok separators = Inr (Some res, v')"
    and "(\<exists>r. re v' = Some r \<and> top_alts r = []) \<or>
         (v = variantColorMix \<and> (\<forall>s\<in>set separators. CHR '')'' \<notin> set s))"
  shows "m1 res \<in> {''tint'', ''shade'', ''shift''} \<and> fns (m1 res) \<noteq> None \<and>
     (\<exists>es'. body parse ser (m1 res) (m2 res) es = Inr es') \<and>
     body parse ser (m1 res) (m2 res) es \<noteq> Inl TypeError \<and>
     body (\<lambda>s. Some white) ser ''teal'' (m2 res) [(''color'', Str ''red'')] = Inl TypeError"
proof -
  from match_result_matched [OF assms(1)] obtain r where r: "re v' = Some r"
    and m: "Some res = matched r tok"
    by blast
  have top: "top_alts r = []"
  proof -
    from assms(2) show ?thesis
    proof
      assume "\<exists>r. re v' = Some r \<and> top_alts r = []"
      with r show ?thesis by auto
    next
      assume f: "v = variantColorMix \<and> (\<forall>s\<in>set separators. CHR '')'' \<notin> set s)"
      with assms(1) r have "compile separators = Inr r"
        by (auto simp: match_def variantColorMix_def split: sum.splits)
      moreover from f have "\<forall>s\<in>set separators. CHR '')'' \<notin> set s" by blast
      ultimately have "list_all (\<lambda>a. \<not> closes a) r" by (rule compile_unbroken)
      from unbroken_alts [OF this] show ?thesis by (simp add: top_alts_def)
    qed
  qed
  from m have "matched r tok = Some res" by simp
  with top have md: "m1 res \<in> set modes" by (rule matched_mode)
  then have a: "m1 res \<in> {''tint'', ''shade'', ''shift''}" by (simp add: modes_set)
  from fns_modes [OF md] have b: "fns (m1 res) \<noteq> None" by auto
  from b obtain f where "fns (m1 res) = Some f" by blast
  from body_Some [OF this] have c: "\<exists>es'. body parse ser (m1 res) (m2 res) es = Inr es'"
    by blast
  then have d: "body parse ser (m1 res) (m2 res) es \<noteq> Inl TypeError" by auto
  have e: "body (\<lambda>s. Some white) ser ''teal'' (m2 res) [(''color'', Str ''red'')] = Inl TypeError"
    by (simp add: body_entry_def fns_def)
  from a b c d e show ?thesis by (intro conjI)
qed

text \<open>An instance: a fresh object, the separators \<open>:\<close> and \<open>-\<close>, the mode \<open>shift\<close>.\<close>

theorem matched_mode_defined_witness:
  "match variantColorMix ''mix-shift-10:bg-red'' ['':'', ''-''] =
     Inr (Some \<lparr> matcher = ''bg-red'', m1 = ''shift'', m2 = ''10'' \<rparr>,
          \<lparr> re = Some [[Lit CHR '':''], [Lit CHR ''-'']] \<rparr>) \<and>
   CHR '')'' \<notin> set '':'' \<and> CHR '')'' \<notin> set ''-'' \<and>
   top_alts [[Lit CHR '':''], [Lit CHR ''-'']] = [] \<and>
   fns (m1 \<lparr> matcher = ''bg-red'', m1 = ''shift'', m2 = ''10'' \<rparr>) \<noteq> None \<and>
   body sample_parse sample_ser ''shift'' ''10'' [(''color'', Str ''#000'')] \<noteq> Inl TypeError"
proof -
  have a: "match variantColorMix ''mix-shift-10:bg-red'' ['':'', ''-''] =
     Inr (Some \<lparr> matcher = ''bg-red'', m1 = ''shift'', m2 = ''10'' \<rparr>,
          \<lparr> re = Some [[Lit CHR '':''], [Lit CHR ''-'']] \<rparr>)"
    by code_simp
  have n1: "CHR '')'' \<notin> set '':''" and n2: "CHR '')'' \<notin> set ''-''" by simp_all
  have t: "top_alts [[Lit CHR '':''], [Lit CHR ''-'']] = []" by code_simp
  from n1 n2 have h: "(\<exists>r. re \<lparr> re = Some [[Lit CHR '':''], [Lit CHR ''-'']] \<rparr> = Some r \<and> top_alts r = []) \<or>
      (variantColorMix = variantColorMix \<and> (\<forall>s\<in>set ['':'', ''-'']. CHR '')'' \<notin> set s))"
    by simp
  note th = matched_mode_defined [OF a h, of sample_parse sample_ser "[(''color'', Str ''#000'')]"]
  from th have b: "fns (m1 \<lparr> matcher = ''bg-red'', m1 = ''shift'', m2 = ''10'' \<rparr>) \<noteq> None"
    by (elim conjE)
  from th have "body sample_parse sample_ser
      (m1 \<lparr> matcher = ''bg-red'', m1 = ''shift'', m2 = ''10'' \<rparr>)
      (m2 \<lparr> matcher = ''bg-red'', m1 = ''shift'', m2 = ''10'' \<rparr>)
      [(''color'', Str ''#000'')] \<noteq> Inl TypeError"
    by (elim conjE)
  then have c: "body sample_parse sample_ser ''shift'' ''10'' [(''color'', Str ''#000'')] \<noteq> Inl TypeError"
    by simp
  from a n1 n2 t b c show ?thesis by (intro conjI)
qed

text \<open>
  Stated for every configuration, C9 fails. The separator \<open>:)|(?:mix-x\<close> closes the
  group of the separators and opens another, so the pattern is
  \<open>^mix-(tint|shade|shift)-(-?\d{1,3})(?::)|(?:mix-x)\<close>: its second alternative has
  neither group. The token \<open>mix-x\<close> is accepted by it with \<open>m[1]\<close> unset, the lookup
  in \<open>fns\<close> gives nothing, and \<open>body\<close> raises the \<open>TypeError\<close> on an entry whose value
  parses.
\<close>

theorem matched_mode_defined_counterexample:
  "match variantColorMix ''mix-x'' ['':)|(?:mix-x''] =
     Inr (Some \<lparr> matcher = [], m1 = ''undefined'', m2 = ''undefined'' \<rparr>,
          \<lparr> re = Some [[Lit CHR '':'', GroupClose],
                        [GroupOpen, Lit CHR ''m'', Lit CHR ''i'', Lit CHR ''x'', Lit CHR ''-'',
                         Lit CHR ''x'']] \<rparr>)
   \<and> ''undefined'' \<notin> {''tint'', ''shade'', ''shift''}
   \<and> fns ''undefined'' = None
   \<and> body sample_parse sample_ser ''undefined'' ''undefined'' [(''color'', Str ''#000'')] =
       Inl TypeError"
proof -
  have a: "match variantColorMix ''mix-x'' ['':)|(?:mix-x''] =
     Inr (Some \<lparr> matcher = [], m1 = ''undefined'', m2 = ''undefined'' \<rparr>,
          \<lparr> re = Some [[Lit CHR '':'', GroupClose],
                        [GroupOpen, Lit CHR ''m'', Lit CHR ''i'', Lit CHR ''x'', Lit CHR ''-'',
                         Lit CHR ''x'']] \<rparr>)"
    by code_simp
  have b: "''undefined'' \<notin> {''tint'', ''shade'', ''shift''}" by simp
  have c: "fns ''undefined'' = None" by (simp add: fns_def)
  have d: "body sample_parse sample_ser ''undefined'' ''undefined'' [(''color'', Str ''#000'')] =
       Inl TypeError"
    by code_simp
  from a b c d show ?thesis by (intro conjI)
qed

section \<open>The rewrite\<close>



text \<open>
  C10. The falsy values are \<open>undefined\<close>, the empty string, the number 0 and
  \<open>false\<close>. \<open>body\<close> leaves an entry with such a value exactly as it is, whatever the
  mode and whatever the parser, also a parser that would parse the text of the value.
\<close>

theorem falsy_skipped:
  "(\<not> truthy x) = (x = Undefined \<or> x = Str [] \<or> x = Num 0 \<or> x = Bool False)
   \<and> (\<not> truthy x \<longrightarrow> body_entry parse ser g1 g2 (k, x) = Inr (k, x))
   \<and> (\<forall>i es'. i < length es \<and> \<not> truthy (snd (es ! i)) \<and> body parse ser g1 g2 es = Inr es' \<longrightarrow>
         es' ! i = es ! i)"
proof -
  have a: "(\<not> truthy x) = (x = Undefined \<or> x = Str [] \<or> x = Num 0 \<or> x = Bool False)"
    by (rule falsy_values)
  have b: "\<not> truthy x \<longrightarrow> body_entry parse ser g1 g2 (k, x) = Inr (k, x)"
    by (simp add: body_entry_falsy)
  have c: "\<forall>i es'. i < length es \<and> \<not> truthy (snd (es ! i)) \<and> body parse ser g1 g2 es = Inr es' \<longrightarrow>
         es' ! i = es ! i"
    using body_falsy_nth by blast
  from a b c show ?thesis by (intro conjI)
qed

text \<open>An instance: a parser that parses every text, and all four falsy values.\<close>

theorem falsy_skipped_witness:
  "\<not> truthy (Str []) \<and> (\<lambda>s. Some white) (toStr (Str [])) = Some white \<and>
   body_entry (\<lambda>s. Some white) sample_ser ''tint'' ''10'' (''color'', Str []) =
     Inr (''color'', Str []) \<and>
   body (\<lambda>s. Some white) sample_ser ''tint'' ''10''
     [(''a'', Num 0), (''b'', Str ''x''), (''c'', Undefined), (''d'', Bool False), (''e'', Str [])] =
   Inr [(''a'', Num 0),
        (''b'', Str ''rgb(calc(255 + (255 - 255) * 10 / 100) calc(255 + (255 - 255) * 10 / 100) calc(255 + (255 - 255) * 10 / 100) / calc(1 + (1 - 1) * 10 / 100))''),
        (''c'', Undefined), (''d'', Bool False), (''e'', Str [])]"
proof -
  have f: "\<not> truthy (Str [])" by simp
  have p: "(\<lambda>s. Some white) (toStr (Str [])) = Some white" by simp
  note th = falsy_skipped [of "Str []" "\<lambda>s. Some white" sample_ser "''tint''" "''10''" "''color''" "[]"]
  from th have "\<not> truthy (Str []) \<longrightarrow>
      body_entry (\<lambda>s. Some white) sample_ser ''tint'' ''10'' (''color'', Str []) =
        Inr (''color'', Str [])"
    by (elim conjE)
  with f have e: "body_entry (\<lambda>s. Some white) sample_ser ''tint'' ''10'' (''color'', Str []) =
     Inr (''color'', Str [])"
    by (rule rev_mp)
  have b: "body (\<lambda>s. Some white) sample_ser ''tint'' ''10''
     [(''a'', Num 0), (''b'', Str ''x''), (''c'', Undefined), (''d'', Bool False), (''e'', Str [])] =
   Inr [(''a'', Num 0),
        (''b'', Str ''rgb(calc(255 + (255 - 255) * 10 / 100) calc(255 + (255 - 255) * 10 / 100) calc(255 + (255 - 255) * 10 / 100) / calc(1 + (1 - 1) * 10 / 100))''),
        (''c'', Undefined), (''d'', Bool False), (''e'', Str [])]"
    by code_simp
  from f p e b show ?thesis by (intro conjI)
qed

end
